theory Spec2Isabelle
  imports Complex_Main "HOL-Library.AList"
begin

section \<open>Data model\<close>

text \<open>
  The room state engine of \<^verbatim>\<open>server/state.py\<close>, the event-origin enum of
  \<^verbatim>\<open>server/schemas/event.py\<close> and the client mirror of
  \<^verbatim>\<open>py_client/cb2_client.py\<close>, as HOL functions.

  Datetimes are integer microsecond counts. Log output is not modelled. A raised
  exception is the \<open>Inl\<close> branch of a sum.
\<close>

datatype PyError =
  KeyError | IndexError | ValueError | AttributeError | AssertionError | OverflowError

subsection \<open>Python floats\<close>

text \<open>
  The floats the engine computes with: a double is finite, an infinity or a NaN.
  Arithmetic on finite values is exact here, except that a result beyond the largest
  double overflows. The operations are the four of \<open>valid_action\<close> and
  \<open>Actor.step\<close>: \<^verbatim>\<open>x ** 2\<close>, which raises OverflowError when a finite
  operand overflows, \<^verbatim>\<open>x + y\<close>, which overflows to an infinity without raising,
  \<^verbatim>\<open>math.sqrt\<close>, which raises ValueError below zero, and \<^verbatim>\<open>x > c\<close> against
  a finite literal, which is false of a NaN.
\<close>

datatype PyFloat = Finite real | PosInf | NegInf | NaN

definition max_float :: real where
  "max_float = (2 - 1 / 2 ^ 52) * 2 ^ 1023"

definition py_round :: "real \<Rightarrow> PyFloat" where
  "py_round x =
     (if x > max_float then PosInf else if x < - max_float then NegInf else Finite x)"

fun py_pow2 :: "PyFloat \<Rightarrow> PyError + PyFloat" where
  "py_pow2 (Finite x) = (if x\<^sup>2 > max_float then Inl OverflowError else Inr (Finite (x\<^sup>2)))"
| "py_pow2 PosInf = Inr PosInf"
| "py_pow2 NegInf = Inr PosInf"
| "py_pow2 NaN = Inr NaN"

fun py_add :: "PyFloat \<Rightarrow> PyFloat \<Rightarrow> PyFloat" where
  "py_add (Finite x) (Finite y) = py_round (x + y)"
| "py_add NaN y = NaN"
| "py_add x NaN = NaN"
| "py_add PosInf NegInf = NaN"
| "py_add NegInf PosInf = NaN"
| "py_add PosInf y = PosInf"
| "py_add x PosInf = PosInf"
| "py_add NegInf y = NegInf"
| "py_add x NegInf = NegInf"

fun py_sqrt :: "PyFloat \<Rightarrow> PyError + PyFloat" where
  "py_sqrt (Finite x) = (if x < 0 then Inl ValueError else Inr (Finite (sqrt x)))"
| "py_sqrt PosInf = Inr PosInf"
| "py_sqrt NegInf = Inl ValueError"
| "py_sqrt NaN = Inr NaN"

fun py_gt :: "PyFloat \<Rightarrow> real \<Rightarrow> bool" where
  "py_gt (Finite x) c = (x > c)"
| "py_gt PosInf c = True"
| "py_gt NegInf c = False"
| "py_gt NaN c = False"


subsection \<open>server/schemas/event.py\<close>

datatype EventOrigin = EO_NONE | EO_LEADER | EO_FOLLOWER | EO_SERVER

text \<open>The integer each enumerator is declared with.\<close>

fun EventOrigin_value :: "EventOrigin \<Rightarrow> int" where
  "EventOrigin_value EO_NONE = 0"
| "EventOrigin_value EO_LEADER = 1"
| "EventOrigin_value EO_FOLLOWER = 1"
| "EventOrigin_value EO_SERVER = 2"

subsection \<open>server/messages/action.py\<close>

datatype ActionType = INIT | INSTANT | ROTATE | TRANSLATE | OUTLINE | DEATH

datatype AnimationType =
  Anim_NONE | Anim_IDLE | Anim_WALKING | Anim_INSTANT | Anim_TRANSLATE
  | Anim_ACCEL_DECEL | Anim_SKIPPING | Anim_ROTATE

record Color =
  col_r :: real
  col_g :: real
  col_b :: real
  col_a :: real

text \<open>
  Modelled from the spec: \<^verbatim>\<open>hex.py\<close> is not among the sources. A HecsCoord is the
  triple \<open>(a, r, c)\<close>; its addition and its Cartesian projection are parameters of
  the functions that call them. The projection yields two floats or raises.
\<close>

record HecsCoord =
  hecs_a :: int
  hecs_r :: int
  hecs_c :: int

definition origin_coord :: HecsCoord where
  "origin_coord = \<lparr>hecs_a = 0, hecs_r = 0, hecs_c = 0\<rparr>"

record Action =
  action_id :: int
  action_type :: ActionType
  animation_type :: AnimationType
  displacement :: HecsCoord
  rotation :: PyFloat
  border_radius :: real
  border_color :: Color
  duration_s :: real
  expiration :: int

subsection \<open>State.valid_action, of server/state.py\<close>

text \<open>\<^verbatim>\<open>math.sqrt(cartesian[0]**2 + cartesian[1]**2)\<close>, left to right.\<close>

definition cartesian_norm :: "PyFloat \<times> PyFloat \<Rightarrow> PyError + PyFloat" where
  "cartesian_norm cartesian =
     (case py_pow2 (fst cartesian) of
        Inl e \<Rightarrow> Inl e
      | Inr x2 \<Rightarrow>
          (case py_pow2 (snd cartesian) of
             Inl e \<Rightarrow> Inl e
           | Inr y2 \<Rightarrow> py_sqrt (py_add x2 y2)))"

text \<open>The test of the TRANSLATE branch: whether the norm exceeds 1.001.\<close>

definition translate_too_long ::
  "(HecsCoord \<Rightarrow> PyError + PyFloat \<times> PyFloat) \<Rightarrow> Action \<Rightarrow> PyError + bool" where
  "translate_too_long cartesian action =
     (case cartesian (displacement action) of
        Inl e \<Rightarrow> Inl e
      | Inr c \<Rightarrow>
          (case cartesian_norm c of
             Inl e \<Rightarrow> Inl e
           | Inr n \<Rightarrow> Inr (py_gt n (1001 / 1000))))"

definition valid_action ::
  "(HecsCoord \<Rightarrow> PyError + PyFloat \<times> PyFloat) \<Rightarrow> int \<Rightarrow> Action \<Rightarrow> PyError + bool" where
  "valid_action cartesian actor_id action =
     (case (if action_type action = TRANSLATE then translate_too_long cartesian action
            else Inr False) of
        Inl e \<Rightarrow> Inl e
      | Inr True \<Rightarrow> Inr False
      | Inr False \<Rightarrow>
          if action_type action = ROTATE \<and> py_gt (rotation action) (6001 / 100) then Inr False
          else Inr True)"

section \<open>The room state engine: server/state.py\<close>

subsection \<open>Roles, turn state, objectives\<close>

text \<open>
  Modelled from the spec: \<^verbatim>\<open>messages/rooms.py\<close>, \<^verbatim>\<open>assets.py\<close> and
  \<^verbatim>\<open>messages/turn_state.py\<close> are not among the sources. A role is one of LEADER,
  FOLLOWER and the sentinel NONE; a turn state has the fields the spec lists, and
  \<open>TurnUpdate\<close> builds one that is not a game-over state from the seven values
  \<^verbatim>\<open>state.py\<close> passes to it. What \<open>GameOverMessage\<close> builds is a parameter
  (\<open>env_GameOverMessage\<close> below).
\<close>

datatype Role = NONE | LEADER | FOLLOWER

datatype AssetId = PLAYER | FOLLOWER_BOT

record TurnState =
  turn :: Role
  moves_remaining :: int
  turns_left :: int
  turn_end :: int
  game_start :: int
  sets_collected :: int
  score :: int
  game_over :: bool

definition TurnUpdate :: "Role \<Rightarrow> int \<Rightarrow> int \<Rightarrow> int \<Rightarrow> int \<Rightarrow> int \<Rightarrow> int \<Rightarrow> TurnState" where
  "TurnUpdate t m l e g s sc =
     \<lparr>turn = t, moves_remaining = m, turns_left = l, turn_end = e, game_start = g,
      sets_collected = s, score = sc, game_over = False\<rparr>"

text \<open>\<^verbatim>\<open>messages/objective.py\<close>\<close>

record ObjectiveMessage =
  sender :: Role
  obj_text :: string
  uuid :: string
  completed :: bool
  cancelled :: bool

record ObjectiveCompleteMessage =
  oc_uuid :: string

subsection \<open>Actor\<close>

record Actor =
  actor_id :: int
  asset_id :: AssetId
  actions :: "Action list"
  location :: HecsCoord
  heading_degrees :: PyFloat
  role :: Role

definition add_action :: "Action \<Rightarrow> Actor \<Rightarrow> Actor" where
  "add_action action actor = actor\<lparr>actions := actions actor @ [action]\<rparr>"

definition has_actions :: "Actor \<Rightarrow> bool" where
  "has_actions actor = (actions actor \<noteq> [])"

definition Actor_peek :: "Actor \<Rightarrow> PyError + Action" where
  "Actor_peek actor = (case actions actor of [] \<Rightarrow> Inl IndexError | x # _ \<Rightarrow> Inr x)"

definition Actor_step :: "(HecsCoord \<Rightarrow> HecsCoord \<Rightarrow> HecsCoord) \<Rightarrow> Actor \<Rightarrow> Actor" where
  "Actor_step hecs_add actor =
     (case actions actor of
        [] \<Rightarrow> actor
      | action # rest \<Rightarrow>
          actor\<lparr>actions := rest,
                location := hecs_add (location actor) (displacement action),
                heading_degrees := py_add (heading_degrees actor) (rotation action)\<rparr>)"

definition Actor_drop :: "Actor \<Rightarrow> Actor" where
  "Actor_drop actor =
     (case actions actor of [] \<Rightarrow> actor | _ # rest \<Rightarrow> actor\<lparr>actions := rest\<rparr>)"

subsection \<open>Map provider\<close>

text \<open>
  Modelled from the spec: \<^verbatim>\<open>map_provider.py\<close> and \<^verbatim>\<open>card.py\<close> are not among the
  sources. The provider owns the tiles and the cards; a card has an id, a location,
  a color, a shape, a count and a selected bit. The operations below follow section
  4.2 of the spec. The cards that \<open>add_random_cards\<close> draws are a parameter.
\<close>

typedecl HexCell

record Tile =
  tile_asset_id :: int
  cell :: HexCell
  rotation_degrees :: int

record Card =
  card_id :: int
  card_location :: HecsCoord
  card_color :: nat
  card_shape :: nat
  card_count :: nat
  selected :: bool

record MapProvider =
  mp_rows :: int
  mp_cols :: int
  tiles :: "Tile list"
  cards :: "Card list"

record MapUpdate =
  mu_rows :: int
  mu_cols :: int
  mu_tiles :: "Tile list"
  mu_props :: "Card list"

definition provider_map :: "MapProvider \<Rightarrow> MapUpdate" where
  "provider_map mp =
     \<lparr>mu_rows = mp_rows mp, mu_cols = mp_cols mp, mu_tiles = tiles mp, mu_props = cards mp\<rparr>"

definition selected_cards :: "MapProvider \<Rightarrow> Card list" where
  "selected_cards mp = filter selected (cards mp)"

definition card_by_location :: "MapProvider \<Rightarrow> HecsCoord \<Rightarrow> Card option" where
  "card_by_location mp h = find (\<lambda>c. card_location c = h) (cards mp)"

definition set_selected :: "int \<Rightarrow> bool \<Rightarrow> MapProvider \<Rightarrow> MapProvider" where
  "set_selected i b mp =
     mp\<lparr>cards := map (\<lambda>c. if card_id c = i then c\<lparr>selected := b\<rparr> else c) (cards mp)\<rparr>"

definition remove_card :: "int \<Rightarrow> MapProvider \<Rightarrow> MapProvider" where
  "remove_card i mp = mp\<lparr>cards := filter (\<lambda>c. card_id c \<noteq> i) (cards mp)\<rparr>"

definition add_random_cards ::
  "(Card list \<Rightarrow> nat \<Rightarrow> Card) \<Rightarrow> nat \<Rightarrow> MapProvider \<Rightarrow> MapProvider" where
  "add_random_cards draw n mp = mp\<lparr>cards := cards mp @ map (draw (cards mp)) [0..<n]\<rparr>"

definition share_attribute :: "Card \<Rightarrow> Card \<Rightarrow> bool" where
  "share_attribute c d \<longleftrightarrow>
     card_color c = card_color d \<or> card_shape c = card_shape d \<or> card_count c = card_count d"

fun some_pair_shares :: "Card list \<Rightarrow> bool" where
  "some_pair_shares [] = False"
| "some_pair_shares (c # cs) = (list_ex (share_attribute c) cs \<or> some_pair_shares cs)"

definition selected_cards_collide :: "MapProvider \<Rightarrow> bool" where
  "selected_cards_collide mp \<longleftrightarrow>
     some_pair_shares (selected_cards mp) \<or> length (selected_cards mp) > 3"

definition selected_valid_set :: "MapProvider \<Rightarrow> bool" where
  "selected_valid_set mp \<longleftrightarrow>
     length (selected_cards mp) = 3 \<and> \<not> some_pair_shares (selected_cards mp)"

subsection \<open>Messages from the server\<close>

text \<open>
  \<open>record_action\<close> is called with a client's action and with the result of
  \<open>CardSelectAction\<close>, of \<^verbatim>\<open>card.py\<close>; the latter is kept as its arguments
  (card id, selected bit, the colour when one is given).
\<close>

datatype OutAction = Proposed Action | CardSelectAction int bool "Color option"

record SyncActor =
  sa_actor_id :: int
  sa_asset_id :: AssetId
  sa_location :: HecsCoord
  sa_rotation_degrees :: PyFloat

record StateSync =
  population :: nat
  sync_actors :: "SyncActor list"
  player_id :: int

datatype MessageFromServer =
  MapUpdateFromServer MapUpdate
  | StateSyncFromServer StateSync
  | ActionsFromServer "OutAction list"
  | ObjectivesFromServer "ObjectiveMessage list"
  | GameStateFromServer TurnState

datatype MessageToServer =
  ACTIONS "Action list"
  | OBJECTIVE ObjectiveMessage
  | OBJECTIVE_COMPLETED ObjectiveCompleteMessage
  | TURN_COMPLETE
  | STATE_SYNC_REQUEST
  | UNKNOWN_TYPE

subsection \<open>Room state\<close>

text \<open>
  The fields of \<open>State\<close>. The actor table is an association list in insertion
  order, the order a Python dict is iterated in; the other dicts are maps.
  \<open>clock_pos\<close> counts the readings of \<^verbatim>\<open>datetime.now()\<close> made so far: the n-th
  reading returns \<open>env_now env n\<close>.
\<close>

record State =
  actors :: "(int \<times> Actor) list"
  map_provider :: MapProvider
  objectives :: "ObjectiveMessage list"
  objectives_stale :: "int \<rightharpoonup> bool"
  map_update :: MapUpdate
  map_stale :: "int \<rightharpoonup> bool"
  synced :: "int \<rightharpoonup> bool"
  action_history :: "int \<rightharpoonup> OutAction list"
  last_tick :: int
  turn_history :: "int \<rightharpoonup> TurnState list"
  turn_state :: TurnState
  spawn_points :: "HecsCoord list"
  done_flag :: bool
  clock_pos :: nat

text \<open>What the engine takes from outside: the hex arithmetic, the clock, the
  provider's random cards and the game-over turn state.\<close>

record Env =
  env_add :: "HecsCoord \<Rightarrow> HecsCoord \<Rightarrow> HecsCoord"
  env_cartesian :: "HecsCoord \<Rightarrow> PyError + PyFloat \<times> PyFloat"
  env_now :: "nat \<Rightarrow> int"
  env_draw :: "Card list \<Rightarrow> nat \<Rightarrow> Card"
  env_GameOverMessage :: "int \<Rightarrow> int \<Rightarrow> int \<Rightarrow> TurnState"

definition LEADER_MOVES_PER_TURN :: int where
  "LEADER_MOVES_PER_TURN = 5"

definition FOLLOWER_MOVES_PER_TURN :: int where
  "FOLLOWER_MOVES_PER_TURN = 10"

definition seconds :: "int \<Rightarrow> int" where
  "seconds n = n * 1000000"

definition now :: "Env \<Rightarrow> State \<Rightarrow> int \<times> State" where
  "now env st = (env_now env (clock_pos st), st\<lparr>clock_pos := Suc (clock_pos st)\<rparr>)"

definition turn_duration :: "Role \<Rightarrow> int" where
  "turn_duration r = (if r = LEADER then seconds 60 else seconds 45)"

definition moves_per_turn :: "Role \<Rightarrow> int" where
  "moves_per_turn r = (if r = LEADER then LEADER_MOVES_PER_TURN else FOLLOWER_MOVES_PER_TURN)"

definition queue_put :: "int \<Rightarrow> TurnState \<Rightarrow> (int \<rightharpoonup> TurnState list) \<Rightarrow> (int \<rightharpoonup> TurnState list)" where
  "queue_put k ts h = h(k \<mapsto> (case h k of None \<Rightarrow> [] | Some q \<Rightarrow> q) @ [ts])"

definition record_turn_state :: "TurnState \<Rightarrow> State \<Rightarrow> State" where
  "record_turn_state ts st =
     st\<lparr>turn_state := ts,
        turn_history := foldl (\<lambda>h k. queue_put k ts h) (turn_history st) (map fst (actors st))\<rparr>"

definition end_game :: "State \<Rightarrow> State" where
  "end_game st = st\<lparr>done_flag := True\<rparr>"

fun record_action_loop ::
  "OutAction \<Rightarrow> (int \<times> Actor) list \<Rightarrow> (int \<rightharpoonup> OutAction list)
    \<Rightarrow> PyError + (int \<rightharpoonup> OutAction list)" where
  "record_action_loop a [] h = Inr h"
| "record_action_loop a ((k, actor) # rest) h =
     (case h (actor_id actor) of
        None \<Rightarrow> Inl KeyError
      | Some q \<Rightarrow> record_action_loop a rest (h(actor_id actor \<mapsto> q @ [a])))"

definition record_action :: "OutAction \<Rightarrow> State \<Rightarrow> PyError + State" where
  "record_action a st =
     (case record_action_loop a (actors st) (action_history st) of
        Inl e \<Rightarrow> Inl e
      | Inr h \<Rightarrow> Inr (st\<lparr>action_history := h\<rparr>))"

definition desync :: "int \<Rightarrow> State \<Rightarrow> State" where
  "desync aid st = st\<lparr>synced := (synced st)(aid \<mapsto> False)\<rparr>"

definition desync_all :: "State \<Rightarrow> State" where
  "desync_all st =
     st\<lparr>synced := foldl (\<lambda>m p. m(actor_id (snd p) \<mapsto> False)) (synced st) (actors st)\<rparr>"

definition end_turn_if_over :: "Env \<Rightarrow> bool \<Rightarrow> State \<Rightarrow> State" where
  "end_turn_if_over env force_turn_end st =
     (let ts = turn_state st;
          opposite_role = (if turn ts = FOLLOWER then LEADER else FOLLOWER);
          (t1, st1) = now env st;
          end_of_turn = (t1 \<ge> turn_end ts \<or> force_turn_end);
          next_role = (if end_of_turn then opposite_role else turn ts);
          moves = (if end_of_turn then moves_per_turn next_role
                   else max (moves_remaining ts - 1) 0);
          left = (if end_of_turn then turns_left ts - 1 else turns_left ts);
          (t_end, st2) = (if end_of_turn
                          then (let (t2, s2) = now env st1 in (t2 + turn_duration next_role, s2))
                          else (turn_end ts, st1))
      in record_turn_state
           (TurnUpdate next_role moves left t_end (game_start ts) (sets_collected ts) (score ts))
           st2)"

definition blue :: Color where
  "blue = \<lparr>col_r = 0, col_g = 0, col_b = 1, col_a = 1\<rparr>"

definition red :: Color where
  "red = \<lparr>col_r = 1, col_g = 0, col_b = 0, col_a = 1\<rparr>"

definition check_for_stepped_on_cards ::
  "int \<Rightarrow> Action \<Rightarrow> Color \<Rightarrow> State \<Rightarrow> PyError + State" where
  "check_for_stepped_on_cards aid action color st =
     (case map_of (actors st) aid of
        None \<Rightarrow> Inl KeyError
      | Some actor \<Rightarrow>
          (case card_by_location (map_provider st) (location actor) of
             None \<Rightarrow> Inr st
           | Some stepped_on_card \<Rightarrow>
               if action_type action = TRANSLATE then
                 (let sel = \<not> selected stepped_on_card
                  in record_action (CardSelectAction (card_id stepped_on_card) sel (Some color))
                       (st\<lparr>map_provider :=
                             set_selected (card_id stepped_on_card) sel (map_provider st)\<rparr>))
               else Inr st))"

subsection \<open>The tick loop: State.update\<close>

definition set_actor :: "int \<Rightarrow> Actor \<Rightarrow> State \<Rightarrow> State" where
  "set_actor aid actor st = st\<lparr>actors := AList.update aid actor (actors st)\<rparr>"

text \<open>The three branches that refuse a pending action do the same: drop and desync.\<close>

definition drop_and_desync :: "int \<Rightarrow> Actor \<Rightarrow> State \<Rightarrow> State" where
  "drop_and_desync aid actor st = desync aid (set_actor aid (Actor_drop actor) st)"

text \<open>The body of \<^verbatim>\<open>for actor_id in self._actors\<close>, lines 150 to 177.\<close>

definition process_actor :: "Env \<Rightarrow> bool \<Rightarrow> int \<Rightarrow> State \<Rightarrow> PyError + State" where
  "process_actor env current_set_invalid aid st =
     (case map_of (actors st) aid of
        None \<Rightarrow> Inl KeyError
      | Some actor \<Rightarrow>
          if \<not> has_actions actor then Inr st
          else
            (case Actor_peek actor of
               Inl e \<Rightarrow> Inl e
             | Inr proposed_action \<Rightarrow>
                 if \<not> turn (turn_state st) = role actor then
                   Inr (drop_and_desync aid actor st)
                 else if moves_remaining (turn_state st) = 0 then
                   Inr (drop_and_desync aid actor st)
                 else
                   (case valid_action (env_cartesian env) aid proposed_action of
                      Inl e \<Rightarrow> Inl e
                    | Inr True \<Rightarrow>
                        (case record_action (Proposed proposed_action)
                                (set_actor aid (Actor_step (env_add env) actor) st) of
                           Inl e \<Rightarrow> Inl e
                         | Inr st1 \<Rightarrow>
                             (case check_for_stepped_on_cards aid proposed_action
                                     (if \<not> current_set_invalid then blue else red) st1 of
                                Inl e \<Rightarrow> Inl e
                              | Inr st2 \<Rightarrow> Inr (end_turn_if_over env False st2)))
                    | Inr False \<Rightarrow> Inr (drop_and_desync aid actor st))))"

fun actor_loop :: "Env \<Rightarrow> bool \<Rightarrow> int list \<Rightarrow> State \<Rightarrow> PyError + State" where
  "actor_loop env csi [] st = Inr st"
| "actor_loop env csi (aid # rest) st =
     (case process_actor env csi aid st of
        Inl e \<Rightarrow> Inl e
      | Inr st1 \<Rightarrow> actor_loop env csi rest st1)"

fun record_actions :: "OutAction list \<Rightarrow> State \<Rightarrow> PyError + State" where
  "record_actions [] st = Inr st"
| "record_actions (a # rest) st =
     (case record_action a st of Inl e \<Rightarrow> Inl e | Inr st1 \<Rightarrow> record_actions rest st1)"

definition added_turns :: "int \<Rightarrow> int" where
  "added_turns collected =
     (if collected = 0 then 5
      else if collected \<in> {1, 2} then 4
      else if collected \<in> {3, 4} then 3
      else 0)"

text \<open>Lines 222 to 226: de-select, announce and remove each card of the set.\<close>

fun clear_selected_cards :: "Card list \<Rightarrow> State \<Rightarrow> PyError + State" where
  "clear_selected_cards [] st = Inr st"
| "clear_selected_cards (c # rest) st =
     (case record_action (CardSelectAction (card_id c) False None)
             (st\<lparr>map_provider := set_selected (card_id c) False (map_provider st)\<rparr>) of
        Inl e \<Rightarrow> Inl e
      | Inr st1 \<Rightarrow>
          clear_selected_cards rest
            (st1\<lparr>map_provider := remove_card (card_id c) (map_provider st1)\<rparr>))"

text \<open>Lines 200 to 227, entered when the provider reports a valid set.\<close>

definition collect_set :: "Env \<Rightarrow> Card list \<Rightarrow> State \<Rightarrow> PyError + State" where
  "collect_set env selected_cards_list st =
     (let ts = turn_state st;
          new_turn_state =
            TurnUpdate (turn ts) (moves_remaining ts)
              (turns_left ts + added_turns (sets_collected ts))
              (turn_end ts) (game_start ts) (sets_collected ts + 1) (score ts + 1)
      in case clear_selected_cards selected_cards_list (record_turn_state new_turn_state st) of
           Inl e \<Rightarrow> Inl e
         | Inr st1 \<Rightarrow>
             Inr (st1\<lparr>map_provider := add_random_cards (env_draw env) 3 (map_provider st1)\<rparr>))"

definition mark_map_stale :: "State \<Rightarrow> State" where
  "mark_map_stale st =
     st\<lparr>map_update := provider_map (map_provider st),
        map_stale := foldl (\<lambda>m k. m(k \<mapsto> True)) (map_stale st) (map fst (actors st))\<rparr>"

text \<open>Lines 179 to 233. \<open>current_set_invalid\<close> is a local of \<open>update\<close> that lives
  across iterations, so it is passed in and returned.\<close>

definition card_logic :: "Env \<Rightarrow> bool \<times> State \<Rightarrow> PyError + (bool \<times> State)" where
  "card_logic env cs =
     (let (csi0, st0) = cs;
          sel = selected_cards (map_provider st0);
          go1 = (selected_cards_collide (map_provider st0) \<and> \<not> csi0);
          r1 = (if go1
                then record_actions (map (\<lambda>c. CardSelectAction (card_id c) True (Some red)) sel) st0
                else Inr st0)
      in case r1 of
           Inl e \<Rightarrow> Inl e
         | Inr st1 \<Rightarrow>
             (let csi1 = (if go1 then True else csi0);
                  go2 = (\<not> selected_cards_collide (map_provider st1) \<and> csi1);
                  r2 = (if go2
                        then record_actions
                               (map (\<lambda>c. CardSelectAction (card_id c) True (Some blue)) sel) st1
                        else Inr st1)
              in case r2 of
                   Inl e \<Rightarrow> Inl e
                 | Inr st2 \<Rightarrow>
                     (let csi2 = (if go2 then False else csi1);
                          go3 = selected_valid_set (map_provider st2);
                          r3 = (if go3 then collect_set env sel st2 else Inr st2)
                      in case r3 of
                           Inl e \<Rightarrow> Inl e
                         | Inr st3 \<Rightarrow>
                             Inr (if go3 then False else csi2,
                                  if go1 \<or> go2 \<or> go3 then mark_map_stale st3 else st3))))"

text \<open>Lines 135 to 144: the turn state is re-emitted once a second.\<close>

definition heartbeat :: "Env \<Rightarrow> State \<Rightarrow> State" where
  "heartbeat env st =
     (let (t1, st1) = now env st
      in if t1 > last_tick st1 + 1000000 then
           (let (t2, st2) = now env st1;
                ts = turn_state st2
            in record_turn_state
                 (TurnUpdate (turn ts) (moves_remaining ts) (turns_left ts) (turn_end ts)
                    (game_start ts) (sets_collected ts) (score ts))
                 (st2\<lparr>last_tick := t2\<rparr>))
         else st1)"

text \<open>Lines 146 and 147.\<close>

definition turn_expiry :: "Env \<Rightarrow> State \<Rightarrow> State" where
  "turn_expiry env st =
     (let (t1, st1) = now env st
      in if t1 \<ge> turn_end (turn_state st1) then end_turn_if_over env False st1 else st1)"

text \<open>One iteration of \<^verbatim>\<open>while not self._done\<close>. When the flag is set the loop has
  ended and nothing changes.\<close>

definition tick :: "Env \<Rightarrow> bool \<times> State \<Rightarrow> PyError + (bool \<times> State)" where
  "tick env cs =
     (let (csi, st) = cs
      in if done_flag st then Inr cs
         else if turns_left (turn_state st) = - 1 then
           Inr (csi,
                end_game
                  (record_turn_state
                     (env_GameOverMessage env (game_start (turn_state st))
                        (sets_collected (turn_state st)) (score (turn_state st)))
                     st))
         else
           (let st1 = turn_expiry env (heartbeat env st)
            in case actor_loop env csi (map fst (actors st1)) st1 of
                 Inl e \<Rightarrow> Inl e
               | Inr st2 \<Rightarrow> card_logic env (csi, st2)))"

subsection \<open>Packets from the clients\<close>

definition handle_action :: "int \<Rightarrow> Action \<Rightarrow> State \<Rightarrow> PyError + State" where
  "handle_action aid action st =
     (if action_id action \<noteq> aid then Inr (desync aid st)
      else
        (case map_of (actors st) aid of
           None \<Rightarrow> Inl KeyError
         | Some actor \<Rightarrow> Inr (set_actor aid (add_action action actor) st)))"

definition mark_objectives_stale :: "State \<Rightarrow> State" where
  "mark_objectives_stale st =
     st\<lparr>objectives_stale :=
          foldl (\<lambda>m k. m(k \<mapsto> True)) (objectives_stale st) (map fst (actors st))\<rparr>"

text \<open>\<open>new_uuid\<close> is the value of \<^verbatim>\<open>uuid.uuid4().hex\<close>.\<close>

definition handle_objective :: "string \<Rightarrow> int \<Rightarrow> ObjectiveMessage \<Rightarrow> State \<Rightarrow> PyError + State" where
  "handle_objective new_uuid aid objective st =
     (case map_of (actors st) aid of
        None \<Rightarrow> Inl KeyError
      | Some actor \<Rightarrow>
          if role actor \<noteq> LEADER then Inr st
          else
            Inr (mark_objectives_stale
                   (st\<lparr>objectives := objectives st @ [objective\<lparr>uuid := new_uuid\<rparr>]\<rparr>)))"

fun mark_completed :: "string \<Rightarrow> ObjectiveMessage list \<Rightarrow> ObjectiveMessage list" where
  "mark_completed u [] = []"
| "mark_completed u (ob # rest) =
     (if uuid ob = u then ob\<lparr>completed := True\<rparr> # rest else ob # mark_completed u rest)"

definition handle_objective_complete ::
  "int \<Rightarrow> ObjectiveCompleteMessage \<Rightarrow> State \<Rightarrow> PyError + State" where
  "handle_objective_complete aid objective_complete st =
     (case map_of (actors st) aid of
        None \<Rightarrow> Inl KeyError
      | Some actor \<Rightarrow>
          if role actor \<noteq> FOLLOWER then Inr st
          else
            Inr (mark_objectives_stale
                   (st\<lparr>objectives := mark_completed (oc_uuid objective_complete) (objectives st)\<rparr>)))"

definition handle_turn_complete :: "Env \<Rightarrow> int \<Rightarrow> State \<Rightarrow> PyError + State" where
  "handle_turn_complete env aid st =
     (case map_of (actors st) aid of
        None \<Rightarrow> Inl KeyError
      | Some actor \<Rightarrow>
          if role actor \<noteq> turn (turn_state st) then Inr st
          else Inr (end_turn_if_over env True st))"

fun handle_actions :: "int \<Rightarrow> Action list \<Rightarrow> State \<Rightarrow> PyError + State" where
  "handle_actions aid [] st = Inr st"
| "handle_actions aid (a # rest) st =
     (case handle_action aid a st of Inl e \<Rightarrow> Inl e | Inr st1 \<Rightarrow> handle_actions aid rest st1)"

fun handle_packet :: "Env \<Rightarrow> string \<Rightarrow> int \<Rightarrow> MessageToServer \<Rightarrow> State \<Rightarrow> PyError + State" where
  "handle_packet env new_uuid aid (ACTIONS as) st = handle_actions aid as st"
| "handle_packet env new_uuid aid (OBJECTIVE ob) st = handle_objective new_uuid aid ob st"
| "handle_packet env new_uuid aid (OBJECTIVE_COMPLETED oc) st = handle_objective_complete aid oc st"
| "handle_packet env new_uuid aid TURN_COMPLETE st = handle_turn_complete env aid st"
| "handle_packet env new_uuid aid STATE_SYNC_REQUEST st = Inr (desync aid st)"
| "handle_packet env new_uuid aid UNKNOWN_TYPE st = Inr st"

subsection \<open>Admission\<close>

text \<open>\<open>new_id\<close> is the value of \<^verbatim>\<open>self._id_assigner.alloc()\<close>; \<^verbatim>\<open>util.py\<close> is not
  among the sources and the assigner keeps no state here.\<close>

definition create_actor :: "int \<Rightarrow> Role \<Rightarrow> State \<Rightarrow> int \<times> State" where
  "create_actor new_id r st =
     (let spawn_point = (if spawn_points st \<noteq> [] then last (spawn_points st) else origin_coord);
          actor = \<lparr>actor_id = new_id,
                   asset_id = (if r = LEADER then PLAYER else FOLLOWER_BOT),
                   actions = [], location = spawn_point, heading_degrees = Finite 0, role = r\<rparr>
      in (new_id,
          desync_all
            (st\<lparr>spawn_points := butlast (spawn_points st),
                actors := AList.update new_id actor (actors st),
                action_history := (action_history st)(new_id \<mapsto> []),
                synced := (synced st)(new_id \<mapsto> False)\<rparr>)))"

definition free_actor :: "int \<Rightarrow> State \<Rightarrow> State" where
  "free_actor aid st =
     desync_all
       (st\<lparr>actors := AList.delete aid (actors st),
           action_history := (action_history st)(aid := None),
           objectives_stale := (objectives_stale st)(aid := None),
           turn_history := (turn_history st)(aid := None)\<rparr>)"

text \<open>\<open>State.__init__\<close>: \<open>mp\<close> is the provider's random map and \<open>shuffled\<close> its
  spawn points after \<^verbatim>\<open>random.shuffle\<close>.\<close>

definition init_state :: "Env \<Rightarrow> MapProvider \<Rightarrow> HecsCoord list \<Rightarrow> State" where
  "init_state env mp shuffled =
     \<lparr>actors = [], map_provider = mp, objectives = [], objectives_stale = Map.empty,
      map_update = provider_map mp, map_stale = Map.empty, synced = Map.empty,
      action_history = Map.empty, last_tick = env_now env 0, turn_history = Map.empty,
      turn_state =
        TurnUpdate LEADER LEADER_MOVES_PER_TURN 6 (env_now env 1 + turn_duration LEADER)
          (env_now env 2) 0 0,
      spawn_points = shuffled, done_flag = False, clock_pos = 3\<rparr>"

subsection \<open>Draining\<close>

definition drain_turn_state :: "int \<Rightarrow> State \<Rightarrow> TurnState option \<times> State" where
  "drain_turn_state aid st =
     (case turn_history st aid of
        None \<Rightarrow> (None, st\<lparr>turn_history := (turn_history st)(aid \<mapsto> [])\<rparr>)
      | Some [] \<Rightarrow> (None, st)
      | Some (t # q) \<Rightarrow> (Some t, st\<lparr>turn_history := (turn_history st)(aid \<mapsto> q)\<rparr>))"

definition drain_actions :: "int \<Rightarrow> State \<Rightarrow> OutAction list \<times> State" where
  "drain_actions aid st =
     (case action_history st aid of
        None \<Rightarrow> ([], st)
      | Some h \<Rightarrow> (h, st\<lparr>action_history := (action_history st)(aid \<mapsto> [])\<rparr>))"

definition drain_objectives :: "int \<Rightarrow> State \<Rightarrow> ObjectiveMessage list \<times> State" where
  "drain_objectives aid st =
     (let st1 = (case objectives_stale st aid of
                   None \<Rightarrow> st\<lparr>objectives_stale := (objectives_stale st)(aid \<mapsto> True)\<rparr>
                 | Some _ \<Rightarrow> st)
      in case objectives_stale st1 aid of
           Some False \<Rightarrow> ([], st1)
         | _ \<Rightarrow> (objectives st1, st1\<lparr>objectives_stale := (objectives_stale st1)(aid \<mapsto> False)\<rparr>))"

definition drain_map_update :: "int \<Rightarrow> State \<Rightarrow> MapUpdate option \<times> State" where
  "drain_map_update aid st =
     (let st1 = (case map_stale st aid of
                   None \<Rightarrow> st\<lparr>map_stale := (map_stale st)(aid \<mapsto> True)\<rparr>
                 | Some _ \<Rightarrow> st)
      in case map_stale st1 aid of
           Some False \<Rightarrow> (None, st1)
         | _ \<Rightarrow> (Some (map_update st1), st1\<lparr>map_stale := (map_stale st1)(aid \<mapsto> False)\<rparr>))"

definition Actor_state :: "Actor \<Rightarrow> SyncActor" where
  "Actor_state actor =
     \<lparr>sa_actor_id = actor_id actor, sa_asset_id = asset_id actor,
      sa_location = location actor, sa_rotation_degrees = heading_degrees actor\<rparr>"

definition state :: "int \<Rightarrow> State \<Rightarrow> StateSync" where
  "state aid st =
     \<lparr>population = length (actors st),
      sync_actors = map (\<lambda>p. Actor_state (snd p)) (actors st),
      player_id = aid\<rparr>"

definition sync_message_for_transmission :: "int \<Rightarrow> State \<Rightarrow> StateSync \<times> State" where
  "sync_message_for_transmission aid st =
     (state aid st, st\<lparr>synced := (synced st)(aid \<mapsto> True)\<rparr>)"

definition drain_message :: "int \<Rightarrow> State \<Rightarrow> PyError + (MessageFromServer option \<times> State)" where
  "drain_message pid st =
     (let (map_upd, st1) = drain_map_update pid st
      in case map_upd of
           Some m \<Rightarrow> Inr (Some (MapUpdateFromServer m), st1)
         | None \<Rightarrow>
             (case synced st1 pid of
                None \<Rightarrow> Inl KeyError
              | Some False \<Rightarrow>
                  (let (state_sync, st2) = sync_message_for_transmission pid st1
                   in Inr (Some (StateSyncFromServer state_sync), st2))
              | Some True \<Rightarrow>
                  (let (acts, st2) = drain_actions pid st1
                   in if length acts > 0 then Inr (Some (ActionsFromServer acts), st2)
                      else
                        (let (objs, st3) = drain_objectives pid st2
                         in if length objs > 0 then Inr (Some (ObjectivesFromServer objs), st3)
                            else
                              (let (ts, st4) = drain_turn_state pid st3
                               in case ts of
                                    Some t \<Rightarrow> Inr (Some (GameStateFromServer t), st4)
                                  | None \<Rightarrow> Inr (None, st4))))))"

section \<open>The client mirror: py_client/cb2_client.py\<close>

text \<open>
  \<^verbatim>\<open>py_client/client_messages.py\<close> and \<^verbatim>\<open>server/actor.py\<close> are not among the
  sources: a message the client sends is kept as a constructor, and a mirrored actor
  as its queue of actions.
\<close>

datatype ClientMessage =
  PongMessage | EndTurnMessage | InterruptMessage | InstructionMessage string
  | InstructionDoneMessage string | PositiveFeedbackMessage | NegativeFeedbackMessage
  | LeaveMessage | ActionsToServer "Action list"

datatype LeadCode =
  Lead_NONE | Lead_FORWARDS | Lead_BACKWARDS | Lead_TURN_LEFT | Lead_TURN_RIGHT
  | Lead_END_TURN | Lead_INTERRUPT | Lead_SEND_INSTRUCTION | Lead_MAX

datatype FeedbackCode = Feedback_NONE | POSITIVE_FEEDBACK | NEGATIVE_FEEDBACK | Feedback_MAX

datatype FollowCode =
  Follow_NONE | Follow_FORWARDS | Follow_BACKWARDS | Follow_TURN_LEFT | Follow_TURN_RIGHT
  | Follow_INSTRUCTION_DONE | Follow_MAX

text \<open>An agent's action: the code and, for the two codes that carry one, the
  instruction text or uuid.\<close>

datatype AgentAction =
  LeadAction LeadCode string
  | LeadFeedbackAction FeedbackCode
  | FollowAction FollowCode string

text \<open>The kinds of message the client reads, with the payload its handler uses.\<close>

datatype ServerMessage =
  S_ACTIONS "Action list"
  | S_STATE_SYNC StateSync
  | S_GAME_STATE TurnState
  | S_MAP_UPDATE MapUpdate
  | S_PROP_UPDATE
  | S_OBJECTIVE "ObjectiveMessage list"
  | S_ROOM_MANAGEMENT
  | S_PING
  | S_LIVE_FEEDBACK
  | S_STATE_MACHINE_TICK

text \<open>What \<^verbatim>\<open>ws.receive\<close> returns: nothing, an error, a close, a frame that is not
  text, or a text frame with a message.\<close>

datatype Frame = WS_NONE | WS_ERROR | WS_CLOSED | WS_BINARY | WS_TEXT ServerMessage

text \<open>A \<open>Game\<close> with the two things of its client it uses: whether the socket is
  closed and, in order, what has been written to it.\<close>

record Game =
  g_map_update :: MapUpdate
  g_actors :: "int \<rightharpoonup> Action list"
  g_turn_state :: TurnState
  g_objectives :: "ObjectiveMessage list"
  queued_messages :: "ClientMessage list"
  g_player_id :: int
  g_player_role :: Role
  ws_closed :: bool
  ws_sent :: "ClientMessage list"

definition send_message :: "ClientMessage \<Rightarrow> Game \<Rightarrow> Game" where
  "send_message message g = (if ws_closed g then g else g\<lparr>ws_sent := ws_sent g @ [message]\<rparr>)"

text \<open>\<open>Game.actor\<close> is None from \<open>_reset\<close> on and never assigned, so a movement code,
  which starts with a method call on it, raises AttributeError.\<close>

fun message_to_server :: "AgentAction \<Rightarrow> PyError + ClientMessage option" where
  "message_to_server (LeadAction Lead_FORWARDS i) = Inl AttributeError"
| "message_to_server (LeadAction Lead_BACKWARDS i) = Inl AttributeError"
| "message_to_server (LeadAction Lead_TURN_LEFT i) = Inl AttributeError"
| "message_to_server (LeadAction Lead_TURN_RIGHT i) = Inl AttributeError"
| "message_to_server (LeadAction Lead_END_TURN i) = Inr (Some EndTurnMessage)"
| "message_to_server (LeadAction Lead_INTERRUPT i) = Inr (Some InterruptMessage)"
| "message_to_server (LeadAction Lead_SEND_INSTRUCTION i) = Inr (Some (InstructionMessage i))"
| "message_to_server (LeadAction _ i) = Inr None"
| "message_to_server (LeadFeedbackAction POSITIVE_FEEDBACK) = Inr (Some PositiveFeedbackMessage)"
| "message_to_server (LeadFeedbackAction NEGATIVE_FEEDBACK) = Inr (Some NegativeFeedbackMessage)"
| "message_to_server (LeadFeedbackAction _) = Inr None"
| "message_to_server (FollowAction Follow_FORWARDS u) = Inl AttributeError"
| "message_to_server (FollowAction Follow_BACKWARDS u) = Inl AttributeError"
| "message_to_server (FollowAction Follow_TURN_LEFT u) = Inl AttributeError"
| "message_to_server (FollowAction Follow_TURN_RIGHT u) = Inl AttributeError"
| "message_to_server (FollowAction Follow_INSTRUCTION_DONE u) = Inr (Some (InstructionDoneMessage u))"
| "message_to_server (FollowAction _ u) = Inr None"

definition can_act :: "Game \<Rightarrow> bool" where
  "can_act g \<longleftrightarrow> g_player_role g = turn (g_turn_state g) \<or> g_player_role g = LEADER"

text \<open>The three \<open>isinstance\<close> tests at the head of \<open>step\<close>.\<close>

fun step_allowed :: "AgentAction \<Rightarrow> Game \<Rightarrow> bool" where
  "step_allowed (FollowAction c u) g \<longleftrightarrow>
     g_player_role g = FOLLOWER \<and> turn (g_turn_state g) = FOLLOWER"
| "step_allowed (LeadAction c i) g \<longleftrightarrow>
     g_player_role g = LEADER \<and> turn (g_turn_state g) = LEADER"
| "step_allowed (LeadFeedbackAction c) g \<longleftrightarrow>
     g_player_role g = LEADER \<and> turn (g_turn_state g) = FOLLOWER"

definition enqueue_action :: "int \<Rightarrow> Action \<Rightarrow> (int \<rightharpoonup> Action list) \<Rightarrow> (int \<rightharpoonup> Action list)" where
  "enqueue_action own action m =
     (if action_id action = own then m
      else case m (action_id action) of
             None \<Rightarrow> m
           | Some q \<Rightarrow> m(action_id action \<mapsto> q @ [action]))"

text \<open>\<open>Game._handle_message\<close>. \<open>_handle_state_sync\<close> reads \<^verbatim>\<open>self.state_sync\<close> and the
  LIVE_FEEDBACK branch \<^verbatim>\<open>self._live_feedback_handler\<close>; a \<open>Game\<close> has neither
  attribute.\<close>

fun handle_message :: "ServerMessage \<Rightarrow> Game \<Rightarrow> PyError + Game" where
  "handle_message (S_ACTIONS as) g =
     Inr (g\<lparr>g_actors := foldl (\<lambda>m a. enqueue_action (g_player_id g) a m) (g_actors g) as\<rparr>)"
| "handle_message (S_STATE_SYNC sync) g = Inl AttributeError"
| "handle_message (S_GAME_STATE ts) g = Inr (g\<lparr>g_turn_state := ts\<rparr>)"
| "handle_message (S_MAP_UPDATE mu) g = Inr (g\<lparr>g_map_update := mu\<rparr>)"
| "handle_message (S_OBJECTIVE obs) g = Inr (g\<lparr>g_objectives := obs\<rparr>)"
| "handle_message S_PING g = Inr (g\<lparr>queued_messages := queued_messages g @ [PongMessage]\<rparr>)"
| "handle_message S_LIVE_FEEDBACK g = Inl AttributeError"
| "handle_message _ g = Inr g"

text \<open>\<open>Cb2Client._wait_for_tick\<close>, reading the frames that arrive before the
  timeout; when they run out the wait has timed out.\<close>

fun wait_for_tick :: "Frame list \<Rightarrow> Game \<Rightarrow> PyError + (bool \<times> Game \<times> Frame list)" where
  "wait_for_tick [] g = Inr (False, g, [])"
| "wait_for_tick (WS_NONE # fs) g = wait_for_tick fs g"
| "wait_for_tick (WS_ERROR # fs) g = wait_for_tick fs g"
| "wait_for_tick (WS_CLOSED # fs) g = Inr (False, g, fs)"
| "wait_for_tick (WS_BINARY # fs) g = wait_for_tick fs g"
| "wait_for_tick (WS_TEXT response # fs) g =
     (case handle_message response g of
        Inl e \<Rightarrow> Inl e
      | Inr g1 \<Rightarrow>
          if response = S_STATE_MACHINE_TICK then Inr (True, g1, fs) else wait_for_tick fs g1)"

text \<open>\<^verbatim>\<open>while not self._can_act()\<close> of \<open>step\<close>, with its assertion.\<close>

function wait_until_can_act :: "Frame list \<Rightarrow> Game \<Rightarrow> PyError + (Game \<times> Frame list)" where
  "wait_until_can_act fs g =
     (if can_act g then Inr (g, fs)
      else
        (case wait_for_tick fs g of
           Inl e \<Rightarrow> Inl e
         | Inr (waited, g1, fs1) \<Rightarrow>
             if \<not> waited then Inl AssertionError else wait_until_can_act fs1 g1))"
  by pat_completeness auto

termination
proof (relation "measure (\<lambda>(fs, g). length fs)")
  show "wf (measure (\<lambda>(fs, g). length fs))" by simp
next
  fix fs :: "Frame list" and g :: Game and b x y g1 fs1
  assume "wait_for_tick fs g = Inr b" and "(x, y) = b" and "(g1, fs1) = y" and "\<not> \<not> x"
  then have w: "wait_for_tick fs g = Inr (True, g1, fs1)" by auto
  have "length fs1 < length fs" if "wait_for_tick fs g = Inr (True, g1, fs1)" for fs g
    using that
    by (induction fs g rule: wait_for_tick.induct) (auto split: sum.splits if_splits)
  from this [OF w] show "((fs1, g1), (fs, g)) \<in> measure (\<lambda>(fs, g). length fs)" by simp
qed

text \<open>\<open>Game.step\<close>: the role and turn tests, the action's own message, every queued
  message, then the wait for a tick and for the turn.\<close>

definition Game_step :: "AgentAction \<Rightarrow> Frame list \<Rightarrow> Game \<Rightarrow> PyError + (Game \<times> Frame list)" where
  "Game_step action fs g =
     (if \<not> step_allowed action g then Inl ValueError
      else
        (case message_to_server action of
           Inl e \<Rightarrow> Inl e
         | Inr message \<Rightarrow>
             (let g1 = (case message of None \<Rightarrow> g | Some m \<Rightarrow> send_message m g);
                  g2 = foldl (\<lambda>g' m. send_message m g') g1 (queued_messages g1)
              in case wait_for_tick fs g2 of
                   Inl e \<Rightarrow> Inl e
                 | Inr (waited, g3, fs3) \<Rightarrow>
                     if \<not> waited then Inl AssertionError else wait_until_can_act fs3 g3)))"

section \<open>Notions used in the statements\<close>

subsection \<open>What a drain looks at\<close>

text \<open>A client with no entry in a stale table is treated as stale, as the drains do.\<close>

definition map_is_stale :: "State \<Rightarrow> int \<Rightarrow> bool" where
  "map_is_stale st pid \<longleftrightarrow> map_stale st pid \<noteq> Some False"

definition objectives_are_stale :: "State \<Rightarrow> int \<Rightarrow> bool" where
  "objectives_are_stale st pid \<longleftrightarrow> objectives_stale st pid \<noteq> Some False"

definition outbox :: "State \<Rightarrow> int \<Rightarrow> OutAction list" where
  "outbox st pid = (case action_history st pid of None \<Rightarrow> [] | Some h \<Rightarrow> h)"

definition queued_turn_states :: "State \<Rightarrow> int \<Rightarrow> TurnState list" where
  "queued_turn_states st pid = (case turn_history st pid of None \<Rightarrow> [] | Some q \<Rightarrow> q)"

subsection \<open>Outboxes\<close>

text \<open>Every actor of the table has an outbox, as \<open>create_actor\<close> and \<open>free_actor\<close>
  keep it; without one, \<open>record_action\<close> raises a KeyError.\<close>

definition outboxes_ok :: "State \<Rightarrow> bool" where
  "outboxes_ok st \<longleftrightarrow> list_all (\<lambda>p. action_history st (actor_id (snd p)) \<noteq> None) (actors st)"

subsection \<open>Reachable states\<close>

text \<open>
  The states a room passes through: the state \<open>__init__\<close> builds, each phase of an
  iteration of the tick loop (the game-over branch, the heartbeat, the turn expiry, one
  actor of the actor loop, the card logic) and the calls the sessions make between
  iterations. An operation that raises produces no state.
\<close>

inductive reachable :: "Env \<Rightarrow> State \<Rightarrow> bool" for env :: Env where
  start: "reachable env (init_state env mp shuffled)"
| over: "reachable env st \<Longrightarrow>
         reachable env
           (end_game
              (record_turn_state
                 (env_GameOverMessage env (game_start (turn_state st))
                    (sets_collected (turn_state st)) (score (turn_state st)))
                 st))"
| beat: "reachable env st \<Longrightarrow> reachable env (heartbeat env st)"
| expiry: "reachable env st \<Longrightarrow> reachable env (turn_expiry env st)"
| actor: "reachable env st \<Longrightarrow> process_actor env csi aid st = Inr st' \<Longrightarrow> reachable env st'"
| cards: "reachable env st \<Longrightarrow> card_logic env (csi, st) = Inr (csi', st') \<Longrightarrow> reachable env st'"
| packet: "reachable env st \<Longrightarrow> handle_packet env u aid m st = Inr st' \<Longrightarrow> reachable env st'"
| admit: "reachable env st \<Longrightarrow> reachable env (snd (create_actor i r st))"
| leave: "reachable env st \<Longrightarrow> reachable env (free_actor aid st)"
| drained: "reachable env st \<Longrightarrow> drain_message pid st = Inr (m, st') \<Longrightarrow> reachable env st'"
| ended: "reachable env st \<Longrightarrow> reachable env (end_game st)"

definition opposite_role :: "Role \<Rightarrow> Role" where
  "opposite_role r = (if r = FOLLOWER then LEADER else FOLLOWER)"

section \<open>Concrete inputs\<close>

definition no_color :: Color where
  "no_color = \<lparr>col_r = 0, col_g = 0, col_b = 0, col_a = 0\<rparr>"

text \<open>\<^verbatim>\<open>float(i)\<close> of a Python int, which raises when the int is too large.\<close>

definition float_of_int :: "int \<Rightarrow> PyError + PyFloat" where
  "float_of_int i =
     (if \<bar>real_of_int i\<bar> > max_float then Inl OverflowError else Inr (Finite (real_of_int i)))"

text \<open>A projection used in examples: the column and row as plane coordinates.\<close>

definition flat_cartesian :: "HecsCoord \<Rightarrow> PyError + PyFloat \<times> PyFloat" where
  "flat_cartesian h =
     (case float_of_int (hecs_c h) of
        Inl e \<Rightarrow> Inl e
      | Inr x \<Rightarrow> (case float_of_int (hecs_r h) of Inl e \<Rightarrow> Inl e | Inr y \<Rightarrow> Inr (x, y)))"

definition mk_action :: "int \<Rightarrow> ActionType \<Rightarrow> HecsCoord \<Rightarrow> real \<Rightarrow> Action" where
  "mk_action i t d rot =
     \<lparr>action_id = i, action_type = t, animation_type = Anim_NONE, displacement = d,
      rotation = Finite rot, border_radius = 0, border_color = no_color, duration_s = 0,
      expiration = 0\<rparr>"

definition plain_add :: "HecsCoord \<Rightarrow> HecsCoord \<Rightarrow> HecsCoord" where
  "plain_add x y =
     \<lparr>hecs_a = hecs_a x + hecs_a y, hecs_r = hecs_r x + hecs_r y, hecs_c = hecs_c x + hecs_c y\<rparr>"

definition coord :: "int \<Rightarrow> int \<Rightarrow> int \<Rightarrow> HecsCoord" where
  "coord a r c = \<lparr>hecs_a = a, hecs_r = r, hecs_c = c\<rparr>"

definition mk_card :: "int \<Rightarrow> HecsCoord \<Rightarrow> nat \<Rightarrow> bool \<Rightarrow> Card" where
  "mk_card i h n sel =
     \<lparr>card_id = i, card_location = h, card_color = n, card_shape = n, card_count = n,
      selected = sel\<rparr>"

definition game_over_state :: "int \<Rightarrow> int \<Rightarrow> int \<Rightarrow> TurnState" where
  "game_over_state g s sc =
     \<lparr>turn = NONE, moves_remaining = 0, turns_left = 0, turn_end = 0, game_start = g,
      sets_collected = s, score = sc, game_over = True\<rparr>"

definition example_env :: "(nat \<Rightarrow> int) \<Rightarrow> Env" where
  "example_env clock =
     \<lparr>env_add = plain_add, env_cartesian = flat_cartesian, env_now = clock,
      env_draw = (\<lambda>cs k. mk_card (100 + int k) (coord 0 9 (int k)) 0 False),
      env_GameOverMessage = game_over_state\<rparr>"

definition example_turn :: TurnState where
  "example_turn = TurnUpdate LEADER 5 6 60000000 0 0 0"

definition mk_actor :: "int \<Rightarrow> Role \<Rightarrow> Action list \<Rightarrow> Actor" where
  "mk_actor i r q =
     \<lparr>actor_id = i, asset_id = (if r = LEADER then PLAYER else FOLLOWER_BOT), actions = q,
      location = origin_coord, heading_degrees = Finite 0, role = r\<rparr>"

definition example_provider :: MapProvider where
  "example_provider =
     \<lparr>mp_rows = 10, mp_cols = 10, tiles = [],
      cards = [mk_card 11 (coord 0 5 1) 1 True, mk_card 12 (coord 0 5 2) 2 True,
               mk_card 13 (coord 0 5 3) 3 True, mk_card 14 (coord 0 5 4) 1 False]\<rparr>"

text \<open>A room with the leader (id 1) and the follower (id 2), everything delivered.\<close>

definition example_state :: "Action list \<Rightarrow> Action list \<Rightarrow> State" where
  "example_state q1 q2 =
     \<lparr>actors = [(1, mk_actor 1 LEADER q1), (2, mk_actor 2 FOLLOWER q2)],
      map_provider = example_provider, objectives = [],
      objectives_stale = [1 \<mapsto> False, 2 \<mapsto> False],
      map_update = provider_map example_provider,
      map_stale = [1 \<mapsto> False, 2 \<mapsto> False],
      synced = [1 \<mapsto> True, 2 \<mapsto> True],
      action_history = [1 \<mapsto> [], 2 \<mapsto> []],
      last_tick = 59999999,
      turn_history = [1 \<mapsto> [], 2 \<mapsto> []],
      turn_state = example_turn, spawn_points = [], done_flag = False, clock_pos = 3\<rparr>"

definition long_step :: Action where
  "long_step = mk_action 1 TRANSLATE (coord 0 0 2) 0"

definition example_objective :: ObjectiveMessage where
  "example_objective =
     \<lparr>sender = LEADER, obj_text = ''go north'', uuid = '''', completed = False,
      cancelled = False\<rparr>"

text \<open>The follower has been told of a change of objectives and has a turn state
  queued, but the objectives list is empty.\<close>

definition stale_empty_objectives :: State where
  "stale_empty_objectives =
     (example_state [] [])
       \<lparr>objectives_stale := [1 \<mapsto> False, 2 \<mapsto> True],
        turn_history := [1 \<mapsto> [], 2 \<mapsto> [example_turn]]\<rparr>"

definition last_turn_state :: State where
  "last_turn_state = (example_state [] [])\<lparr>turn_state := example_turn\<lparr>turns_left := - 1\<rparr>\<rparr>"

definition unit_step :: Action where
  "unit_step = mk_action 1 TRANSLATE (coord 0 0 1) 0"

definition quiet_provider :: MapProvider where
  "quiet_provider = \<lparr>mp_rows = 10, mp_cols = 10, tiles = [], cards = []\<rparr>"

text \<open>A fresh room that the leader (id 1) and the follower (id 2) have joined.\<close>

definition joined_state :: "Env \<Rightarrow> State" where
  "joined_state env =
     snd (create_actor 2 FOLLOWER (snd (create_actor 1 LEADER (init_state env quiet_provider []))))"

text \<open>The same room once the leader's packet with one unit step has been handled.\<close>

definition moving_state :: "Env \<Rightarrow> State" where
  "moving_state env =
     (case handle_packet env [] 1 (ACTIONS [unit_step]) (joined_state env) of
        Inr st \<Rightarrow> st | Inl e \<Rightarrow> joined_state env)"

text \<open>A clock that passes the end of the leader's first turn (at 60 s) between the
  turn-expiry test of a tick and the commit of a move in the same tick.\<close>

definition late_clock :: "nat \<Rightarrow> int" where
  "late_clock n = (if n < 3 then 0 else if n \<le> 5 then 59999990 + int n else 60000000 + int n)"

text \<open>A leader's mirror during the follower's turn, nothing queued and nothing sent.\<close>

definition example_game :: Game where
  "example_game =
     \<lparr>g_map_update = provider_map quiet_provider,
      g_actors = [1 \<mapsto> [], 2 \<mapsto> []],
      g_turn_state = TurnUpdate FOLLOWER 10 5 45000000 0 0 0,
      g_objectives = [], queued_messages = [], g_player_id = 1, g_player_role = LEADER,
      ws_closed = False, ws_sent = []\<rparr>"

text \<open>A displacement of \<open>10\<^sup>2\<^sup>0\<^sup>0\<close> columns: its projection is a double, the square of
  the projection is not.\<close>

definition huge_step :: Action where
  "huge_step = mk_action 1 TRANSLATE (coord 0 0 (10 ^ 200)) 0"

text \<open>The joined room once the leader's packet with the huge step has been handled.\<close>

definition overflow_state :: "Env \<Rightarrow> State" where
  "overflow_state env =
     (case handle_packet env [] 1 (ACTIONS [huge_step]) (joined_state env) of
        Inr st \<Rightarrow> st | Inl e \<Rightarrow> joined_state env)"

section \<open>Action validation\<close>

lemma max_float_lower: "10 ^ 300 < max_float"
  by (simp add: max_float_def)

lemma max_float_upper: "max_float < 10 ^ 309"
  by (simp add: max_float_def)

lemma not_over_max_float: "x \<le> 10 ^ 300 \<Longrightarrow> \<not> x > max_float"
  using max_float_lower by simp

lemma not_under_max_float: "- (10 ^ 300) \<le> x \<Longrightarrow> \<not> x < - max_float"
  using max_float_lower by simp

lemma over_max_float: "10 ^ 309 \<le> x \<Longrightarrow> x > max_float"
  using max_float_upper by simp

lemma cartesian_norm_finite:
  assumes "x\<^sup>2 \<le> max_float" and "y\<^sup>2 \<le> max_float"
  shows "cartesian_norm (Finite x, Finite y) =
           Inr (if x\<^sup>2 + y\<^sup>2 > max_float then PosInf else Finite (sqrt (x\<^sup>2 + y\<^sup>2)))"
proof -
  have "0 \<le> x\<^sup>2 + y\<^sup>2" by simp
  moreover have "0 < max_float" using max_float_lower by (simp add: less_trans[of 0 "10 ^ 300"])
  ultimately have "\<not> x\<^sup>2 + y\<^sup>2 < - max_float" by linarith
  with assms show ?thesis
    by (simp add: cartesian_norm_def py_round_def not_less)
qed





lemma flat_cartesian_small:
  "\<bar>real_of_int (hecs_c h)\<bar> \<le> 10 ^ 300 \<Longrightarrow> \<bar>real_of_int (hecs_r h)\<bar> \<le> 10 ^ 300 \<Longrightarrow>
   flat_cartesian h = Inr (Finite (real_of_int (hecs_c h)), Finite (real_of_int (hecs_r h)))"
  by (simp add: flat_cartesian_def float_of_int_def not_over_max_float)

lemma unit_step_projection:
  "flat_cartesian (displacement unit_step) = Inr (Finite 1, Finite 0)"
  using flat_cartesian_small [of "displacement unit_step"]
  by (simp add: unit_step_def mk_action_def coord_def)

lemma small_square: "\<bar>x\<bar> \<le> 10 ^ 100 \<Longrightarrow> x\<^sup>2 \<le> max_float"
proof -
  assume "\<bar>x\<bar> \<le> 10 ^ 100"
  then have "x\<^sup>2 \<le> (10 ^ 100)\<^sup>2" by (metis abs_ge_zero power2_abs power_mono)
  also have "\<dots> < max_float" using max_float_lower by simp
  finally show ?thesis by simp
qed



section \<open>Event origins\<close>

text \<open>
  C9 asks for pairwise distinct discriminants. The enum declares LEADER and FOLLOWER
  with the same integer.
\<close>

theorem EventOrigin_leader_follower_same_value:
  "EventOrigin_value EO_LEADER = EventOrigin_value EO_FOLLOWER"
  by simp

section \<open>Refused actions\<close>

lemma map_of_update_same: "map_of (AList.update k v al) k = Some v"
  by (simp add: update_conv')

lemma map_of_update_other: "k' \<noteq> k \<Longrightarrow> map_of (AList.update k v al) k' = map_of al k'"
  by (simp add: update_conv')

lemma drop_and_desync_eq:
  "drop_and_desync aid actor st =
     st\<lparr>actors := AList.update aid (actor\<lparr>actions := tl (actions actor)\<rparr>) (actors st),
        synced := (synced st)(aid \<mapsto> False)\<rparr>"
proof (cases "actions actor")
  case Nil
  have "actor\<lparr>actions := actions actor\<rparr> = actor" by simp
  with Nil have e: "actor\<lparr>actions := []\<rparr> = actor" by simp
  show ?thesis
    by (simp add: drop_and_desync_def desync_def set_actor_def Actor_drop_def Nil e)
next
  case (Cons x xs)
  then show ?thesis
    by (simp add: drop_and_desync_def desync_def set_actor_def Actor_drop_def)
qed

lemma process_actor_refuse:
  assumes "map_of (actors st) aid = Some actor" "has_actions actor"
    and "turn (turn_state st) \<noteq> role actor \<or> moves_remaining (turn_state st) = 0
         \<or> valid_action (env_cartesian env) aid (hd (actions actor)) = Inr False"
  shows "process_actor env csi aid st = Inr (drop_and_desync aid actor st)"
  using assms
  by (cases "actions actor") (auto simp: process_actor_def has_actions_def Actor_peek_def)

lemma too_long_invalid:
  "action_type act = TRANSLATE \<Longrightarrow> translate_too_long cart act = Inr True \<Longrightarrow>
   valid_action cart aid act = Inr False"
  by (simp add: valid_action_def)

text \<open>
  What the three refusing branches of the actor loop do: an action that is out of
  turn, out of moves or judged invalid leaves the queue, the actor keeps its location
  and heading, no outbox changes and the actor's synced bit is cleared. A TRANSLATE
  whose norm is computed and exceeds 1.001 is among them.
\<close>

lemma refused_action_dropped_and_desynced:
  assumes "map_of (actors st) aid = Some actor" and "has_actions actor"
    and "turn (turn_state st) \<noteq> role actor \<or> moves_remaining (turn_state st) = 0
         \<or> valid_action (env_cartesian env) aid (hd (actions actor)) = Inr False
         \<or> (action_type (hd (actions actor)) = TRANSLATE
            \<and> translate_too_long (env_cartesian env) (hd (actions actor)) = Inr True)"
  shows "\<exists>st' actor'.
           process_actor env csi aid st = Inr st'
           \<and> map_of (actors st') aid = Some actor'
           \<and> location actor' = location actor
           \<and> heading_degrees actor' = heading_degrees actor
           \<and> actions actor' = tl (actions actor)
           \<and> (\<forall>k. k \<noteq> aid \<longrightarrow> map_of (actors st') k = map_of (actors st) k)
           \<and> action_history st' = action_history st
           \<and> synced st' aid = Some False
           \<and> st' = st\<lparr>actors := actors st', synced := (synced st)(aid \<mapsto> False)\<rparr>"
proof -
  have "turn (turn_state st) \<noteq> role actor \<or> moves_remaining (turn_state st) = 0
         \<or> valid_action (env_cartesian env) aid (hd (actions actor)) = Inr False"
    using assms(3) by (auto dest: too_long_invalid)
  then have "process_actor env csi aid st = Inr (drop_and_desync aid actor st)"
    using assms(1,2) by (rule process_actor_refuse[rotated 2])
  then show ?thesis
    by (simp add: drop_and_desync_eq map_of_update_same map_of_update_other)
qed

lemma long_step_too_long: "translate_too_long flat_cartesian long_step = Inr True"
proof -
  have p: "flat_cartesian (displacement long_step) = Inr (Finite 2, Finite 0)"
    using flat_cartesian_small [of "displacement long_step"]
    by (simp add: long_step_def mk_action_def coord_def)
  have sq: "(2::real)\<^sup>2 \<le> max_float" "(0::real)\<^sup>2 \<le> max_float"
    using small_square [of 2] small_square [of 0] by simp_all
  have "\<not> (2::real)\<^sup>2 + 0\<^sup>2 > max_float" using not_over_max_float [of "2\<^sup>2 + 0\<^sup>2"] by simp
  with cartesian_norm_finite [OF sq] have "cartesian_norm (Finite 2, Finite 0) = Inr (Finite 2)"
    by simp
  with p show ?thesis by (simp add: translate_too_long_def)
qed

lemma long_step_refused:
  "\<exists>st' actor'.
     process_actor (example_env (\<lambda>n. 0)) False 1 (example_state [long_step] []) = Inr st'
     \<and> map_of (actors st') 1 = Some actor'
     \<and> location actor' = origin_coord \<and> heading_degrees actor' = Finite 0 \<and> actions actor' = []
     \<and> action_history st' = action_history (example_state [long_step] [])
     \<and> synced st' 1 = Some False"
proof -
  let ?st = "example_state [long_step] []"
  let ?a = "mk_actor 1 LEADER [long_step]"
  let ?env = "example_env (\<lambda>n. 0)"
  have h1: "map_of (actors ?st) 1 = Some ?a" by (simp add: example_state_def)
  have h2: "has_actions ?a" by (simp add: has_actions_def mk_actor_def)
  have h3: "action_type (hd (actions ?a)) = TRANSLATE
            \<and> translate_too_long (env_cartesian ?env) (hd (actions ?a)) = Inr True"
    using long_step_too_long
    by (simp add: mk_actor_def example_env_def) (simp add: long_step_def mk_action_def)
  then have h3': "turn (turn_state ?st) \<noteq> role ?a \<or> moves_remaining (turn_state ?st) = 0
         \<or> valid_action (env_cartesian ?env) 1 (hd (actions ?a)) = Inr False
         \<or> (action_type (hd (actions ?a)) = TRANSLATE
            \<and> translate_too_long (env_cartesian ?env) (hd (actions ?a)) = Inr True)"
    by blast
  from refused_action_dropped_and_desynced [OF h1 h2 h3', of False]
  obtain st' actor' where r:
    "process_actor ?env False 1 ?st = Inr st'" "map_of (actors st') 1 = Some actor'"
    "location actor' = location ?a" "heading_degrees actor' = heading_degrees ?a"
    "actions actor' = tl (actions ?a)" "action_history st' = action_history ?st"
    "synced st' 1 = Some False"
    by blast
  have "location ?a = origin_coord" "heading_degrees ?a = Finite 0" "tl (actions ?a) = []"
    by (simp_all add: mk_actor_def)
  with r show ?thesis by simp
qed

lemma huge_step_projection:
  "flat_cartesian (displacement huge_step) = Inr (Finite (10 ^ 200), Finite 0)"
  using flat_cartesian_small [of "displacement huge_step"]
  by (simp add: huge_step_def mk_action_def coord_def)

lemma huge_step_raises: "valid_action flat_cartesian 1 huge_step = Inl OverflowError"
proof -
  have "((10::real) ^ 200)\<^sup>2 > max_float" using over_max_float [of "(10 ^ 200)\<^sup>2"] by simp
  then have "cartesian_norm (Finite (10 ^ 200), Finite 0) = Inl OverflowError"
    by (simp add: cartesian_norm_def)
  with huge_step_projection show ?thesis
    by (simp add: valid_action_def translate_too_long_def huge_step_def mk_action_def)
qed

lemma overflow_state_eq:
  "overflow_state (example_env clk) =
     \<lparr>actors = [(1, mk_actor 1 LEADER [huge_step]), (2, mk_actor 2 FOLLOWER [])],
      map_provider = quiet_provider, objectives = [], objectives_stale = Map.empty,
      map_update = provider_map quiet_provider, map_stale = Map.empty,
      synced = [1 \<mapsto> False, 2 \<mapsto> False],
      action_history = [1 \<mapsto> [], 2 \<mapsto> []],
      last_tick = clk 0, turn_history = Map.empty,
      turn_state = TurnUpdate LEADER 5 6 (clk 1 + 60000000) (clk 2) 0 0,
      spawn_points = [], done_flag = False, clock_pos = 3\<rparr>"
  by (simp add: overflow_state_def joined_state_def init_state_def create_actor_def Let_def
      desync_all_def handle_action_def set_actor_def add_action_def mk_actor_def huge_step_def
      mk_action_def example_env_def turn_duration_def seconds_def LEADER_MOVES_PER_TURN_def)

lemma overflow_state_reachable: "reachable (example_env clk) (overflow_state (example_env clk))"
proof -
  let ?env = "example_env clk"
  have 1: "reachable ?env (joined_state ?env)"
    unfolding joined_state_def by (intro reachable.admit reachable.start)
  have "handle_packet ?env [] 1 (ACTIONS [huge_step]) (joined_state ?env) = Inr (overflow_state ?env)"
    by (simp add: overflow_state_def joined_state_def init_state_def create_actor_def Let_def
      desync_all_def handle_action_def set_actor_def add_action_def huge_step_def mk_action_def)
  with 1 show ?thesis by (rule reachable.packet)
qed

text \<open>
  C2 says that a TRANSLATE with a Cartesian displacement above 1.001 is always
  rejected and always causes a desync. For the leader's step of \<open>10\<^sup>2\<^sup>0\<^sup>0\<close> columns, in
  the leader's turn with 5 moves left, the square in \<open>valid_action\<close> raises
  OverflowError: the actor loop and the tick end with the exception, and nothing is
  dropped or desynced.
\<close>

theorem huge_translate_raises:
  "reachable (example_env (\<lambda>n. 0)) (overflow_state (example_env (\<lambda>n. 0)))
   \<and> map_option actions (map_of (actors (overflow_state (example_env (\<lambda>n. 0)))) 1)
       = Some [huge_step]
   \<and> action_type huge_step = TRANSLATE
   \<and> flat_cartesian (displacement huge_step) = Inr (Finite (10 ^ 200), Finite 0)
   \<and> process_actor (example_env (\<lambda>n. 0)) False 1 (overflow_state (example_env (\<lambda>n. 0)))
       = Inl OverflowError
   \<and> tick (example_env (\<lambda>n. 0)) (False, overflow_state (example_env (\<lambda>n. 0)))
       = Inl OverflowError"
proof -
  let ?env = "example_env (\<lambda>n. 0)"
  have v: "valid_action (env_cartesian ?env) 1 huge_step = Inl OverflowError"
    using huge_step_raises by (simp add: example_env_def)
  have a: "map_option actions (map_of (actors (overflow_state ?env)) 1) = Some [huge_step]"
    unfolding overflow_state_eq by (simp add: mk_actor_def)
  have t: "action_type huge_step = TRANSLATE" by (simp add: huge_step_def mk_action_def)
  have p: "process_actor ?env False 1 (overflow_state ?env) = Inl OverflowError"
    unfolding overflow_state_eq using v
    by (simp add: process_actor_def has_actions_def Actor_peek_def mk_actor_def TurnUpdate_def)
  have k: "tick ?env (False, overflow_state ?env) = Inl OverflowError"
    unfolding overflow_state_eq using v
    by (simp add: tick_def heartbeat_def turn_expiry_def now_def Let_def TurnUpdate_def
        process_actor_def has_actions_def Actor_peek_def mk_actor_def)
      (simp add: example_env_def)
  from overflow_state_reachable a t huge_step_projection p k show ?thesis by blast
qed

section \<open>Actions submitted under another id\<close>

text \<open>
  C10: an action whose id differs from the submitter's only clears the submitter's
  synced bit (no actor's queue changes); when \<open>handle_action\<close> does change the
  actor table, the action's id is the submitter's and the action has been appended to
  the submitter's queue.
\<close>

theorem handle_action_foreign_id:
  "(action_id a \<noteq> aid \<longrightarrow>
      handle_action aid a st = Inr (st\<lparr>synced := (synced st)(aid \<mapsto> False)\<rparr>))
   \<and> (\<forall>st'. handle_action aid a st = Inr st' \<and> actors st' \<noteq> actors st \<longrightarrow>
         action_id a = aid
         \<and> (\<exists>actor. map_of (actors st) aid = Some actor
              \<and> st' = st\<lparr>actors := AList.update aid (actor\<lparr>actions := actions actor @ [a]\<rparr>)
                                     (actors st)\<rparr>))"
  by (auto simp: handle_action_def desync_def set_actor_def add_action_def split: option.splits if_splits)

theorem handle_action_foreign_id_witness:
  "action_id (mk_action 2 ROTATE origin_coord 60) \<noteq> 1
   \<and> handle_action 1 (mk_action 2 ROTATE origin_coord 60) (example_state [] [])
       = Inr ((example_state [] [])\<lparr>synced := (synced (example_state [] []))(1 \<mapsto> False)\<rparr>)
   \<and> handle_action 1 (mk_action 1 ROTATE origin_coord 60) (example_state [] [])
       = Inr (example_state [mk_action 1 ROTATE origin_coord 60] [])
   \<and> actors (example_state [mk_action 1 ROTATE origin_coord 60] []) \<noteq> actors (example_state [] [])
   \<and> action_id (mk_action 1 ROTATE origin_coord 60) = 1"
proof -
  have a: "action_id (mk_action 2 ROTATE origin_coord 60) \<noteq> 1" by (simp add: mk_action_def)
  have b: "handle_action 1 (mk_action 1 ROTATE origin_coord 60) (example_state [] [])
       = Inr (example_state [mk_action 1 ROTATE origin_coord 60] [])"
    by (simp add: handle_action_def mk_action_def example_state_def set_actor_def add_action_def
        mk_actor_def)
  have c: "actors (example_state [mk_action 1 ROTATE origin_coord 60] []) \<noteq> actors (example_state [] [])"
    by (simp add: example_state_def mk_actor_def)
  from handle_action_foreign_id [of "mk_action 2 ROTATE origin_coord 60" 1 "example_state [] []"] a
  have d: "handle_action 1 (mk_action 2 ROTATE origin_coord 60) (example_state [] [])
       = Inr ((example_state [] [])\<lparr>synced := (synced (example_state [] []))(1 \<mapsto> False)\<rparr>)"
    by blast
  from handle_action_foreign_id [of "mk_action 1 ROTATE origin_coord 60" 1 "example_state [] []"] b c
  have e: "action_id (mk_action 1 ROTATE origin_coord 60) = 1" by blast
  from a b c d e show ?thesis by blast
qed

lemma foldl_upd_const:
  "foldl (\<lambda>m k. m(k \<mapsto> v)) m ks k' = (if k' \<in> set ks then Some v else m k')"
  by (induction ks arbitrary: m) auto

section \<open>Objectives\<close>

text \<open>
  C7: an objective from the leader is appended with the generated uuid and a
  completion from the follower marks the first objective with that uuid; both mark
  the objectives of every actor stale, and both leave the turn state, the actor table
  (so every location and heading), the map provider and the map update as they were.
\<close>

theorem objective_updates_frame:
  assumes "map_of (actors st) aid = Some actor"
  shows "(role actor = LEADER \<longrightarrow>
           (\<exists>st'. handle_objective u aid ob st = Inr st'
              \<and> objectives st' = objectives st @ [ob\<lparr>uuid := u\<rparr>]
              \<and> (\<forall>k \<in> fst ` set (actors st). objectives_stale st' k = Some True)
              \<and> turn_state st' = turn_state st \<and> actors st' = actors st
              \<and> map_provider st' = map_provider st \<and> map_update st' = map_update st))
       \<and> (role actor = FOLLOWER \<longrightarrow>
           (\<exists>st'. handle_objective_complete aid oc st = Inr st'
              \<and> objectives st' = mark_completed (oc_uuid oc) (objectives st)
              \<and> (\<forall>k \<in> fst ` set (actors st). objectives_stale st' k = Some True)
              \<and> turn_state st' = turn_state st \<and> actors st' = actors st
              \<and> map_provider st' = map_provider st \<and> map_update st' = map_update st))"
  using assms
  by (auto simp: handle_objective_def handle_objective_complete_def mark_objectives_stale_def
      foldl_upd_const)

theorem objective_updates_frame_witness:
  "map_of (actors (example_state [] [])) 1 = Some (mk_actor 1 LEADER [])
   \<and> role (mk_actor 1 LEADER []) = LEADER
   \<and> 2 \<in> fst ` set (actors (example_state [] []))
   \<and> (\<exists>st'. handle_objective ''u1'' 1 example_objective (example_state [] []) = Inr st'
         \<and> objectives st' = [example_objective\<lparr>uuid := ''u1''\<rparr>]
         \<and> objectives_stale st' 2 = Some True
         \<and> turn_state st' = example_turn
         \<and> actors st' = actors (example_state [] [])
         \<and> map_provider st' = example_provider)
   \<and> map_of (actors (example_state [] [])) 2 = Some (mk_actor 2 FOLLOWER [])
   \<and> role (mk_actor 2 FOLLOWER []) = FOLLOWER
   \<and> (\<exists>st'. handle_objective_complete 2 \<lparr>oc_uuid = ''u1''\<rparr>
               ((example_state [] [])\<lparr>objectives := [example_objective\<lparr>uuid := ''u1''\<rparr>]\<rparr>) = Inr st'
         \<and> objectives st' = [example_objective\<lparr>uuid := ''u1'', completed := True\<rparr>]
         \<and> objectives_stale st' 2 = Some True
         \<and> turn_state st' = example_turn
         \<and> map_provider st' = example_provider)"
proof -
  let ?S = "example_state [] []"
  let ?T = "?S\<lparr>objectives := [example_objective\<lparr>uuid := ''u1''\<rparr>]\<rparr>"
  have h1: "map_of (actors ?S) 1 = Some (mk_actor 1 LEADER [])" by (simp add: example_state_def)
  have r1: "role (mk_actor 1 LEADER []) = LEADER" by (simp add: mk_actor_def)
  have h2: "map_of (actors ?T) 2 = Some (mk_actor 2 FOLLOWER [])" by (simp add: example_state_def)
  have r2: "role (mk_actor 2 FOLLOWER []) = FOLLOWER" by (simp add: mk_actor_def)
  have k: "2 \<in> fst ` set (actors ?S)" "2 \<in> fst ` set (actors ?T)" by (simp_all add: example_state_def)
  have f: "turn_state ?S = example_turn" "map_provider ?S = example_provider" "objectives ?S = []"
    "turn_state ?T = example_turn" "map_provider ?T = example_provider"
    "objectives ?T = [example_objective\<lparr>uuid := ''u1''\<rparr>]" "actors ?T = actors ?S"
    by (simp_all add: example_state_def)
  have m: "mark_completed (oc_uuid \<lparr>oc_uuid = ''u1''\<rparr>) [example_objective\<lparr>uuid := ''u1''\<rparr>]
           = [example_objective\<lparr>uuid := ''u1'', completed := True\<rparr>]"
    by simp
  from objective_updates_frame [OF h1, of "''u1''" example_objective] r1 k f
  have a: "\<exists>st'. handle_objective ''u1'' 1 example_objective ?S = Inr st'
         \<and> objectives st' = [example_objective\<lparr>uuid := ''u1''\<rparr>]
         \<and> objectives_stale st' 2 = Some True
         \<and> turn_state st' = example_turn
         \<and> actors st' = actors ?S
         \<and> map_provider st' = example_provider"
    by fastforce
  from objective_updates_frame [OF h2, of _ _ "\<lparr>oc_uuid = ''u1''\<rparr>"] r2 k f m
  have b: "\<exists>st'. handle_objective_complete 2 \<lparr>oc_uuid = ''u1''\<rparr> ?T = Inr st'
         \<and> objectives st' = [example_objective\<lparr>uuid := ''u1'', completed := True\<rparr>]
         \<and> objectives_stale st' 2 = Some True
         \<and> turn_state st' = example_turn
         \<and> map_provider st' = example_provider"
    by fastforce
  from h1 r1 k(1) a h2 r2 b f(7) show ?thesis by simp
qed

section \<open>Draining\<close>

lemma drain_message_result:
  assumes "synced st pid = Some s"
  shows "\<exists>st'. drain_message pid st =
           Inr (if map_is_stale st pid then Some (MapUpdateFromServer (map_update st))
                else if \<not> s then Some (StateSyncFromServer (state pid st))
                else if outbox st pid \<noteq> [] then Some (ActionsFromServer (outbox st pid))
                else if objectives_are_stale st pid \<and> objectives st \<noteq> []
                  then Some (ObjectivesFromServer (objectives st))
                else (case queued_turn_states st pid of
                        [] \<Rightarrow> None | t # q \<Rightarrow> Some (GameStateFromServer t)),
                st')
           \<and> (\<not> map_is_stale st pid \<and> \<not> s \<longrightarrow> synced st' pid = Some True)"
  using assms
  by (auto simp: drain_message_def drain_map_update_def sync_message_for_transmission_def
      drain_actions_def drain_objectives_def drain_turn_state_def map_is_stale_def
      objectives_are_stale_def outbox_def queued_turn_states_def state_def
      split: option.splits bool.splits list.splits)

text \<open>
  C3, as stated, fails where the objectives are stale and the objectives list is
  empty: the drain skips the Objectives message and returns the queued turn state.
\<close>

theorem drain_skips_empty_objectives:
  "map_stale stale_empty_objectives 2 = Some False
   \<and> synced stale_empty_objectives 2 = Some True
   \<and> action_history stale_empty_objectives 2 = Some []
   \<and> objectives_stale stale_empty_objectives 2 = Some True
   \<and> map_sum id fst (drain_message 2 stale_empty_objectives)
       = Inr (Some (GameStateFromServer example_turn))"
  by (simp add: stale_empty_objectives_def example_state_def drain_message_def
      drain_map_update_def drain_actions_def drain_objectives_def drain_turn_state_def)

text \<open>
  C3, amended: for a client the room knows, a drain returns at most one message: the
  MapUpdate if the client's map is stale, else a StateSync if the client is not synced
  (and the client is then marked synced), else the batched actions if the outbox is
  not empty, else the objectives if they are stale for the client and the list is not
  empty, else the first queued turn state, else nothing.
\<close>

theorem drain_message_priority:
  assumes "synced st pid = Some s"
  shows "\<exists>st'. drain_message pid st =
           Inr (if map_is_stale st pid then Some (MapUpdateFromServer (map_update st))
                else if \<not> s then Some (StateSyncFromServer (state pid st))
                else if outbox st pid \<noteq> [] then Some (ActionsFromServer (outbox st pid))
                else if objectives_are_stale st pid \<and> objectives st \<noteq> []
                  then Some (ObjectivesFromServer (objectives st))
                else (case queued_turn_states st pid of
                        [] \<Rightarrow> None | t # q \<Rightarrow> Some (GameStateFromServer t)),
                st')
           \<and> (\<not> map_is_stale st pid \<and> \<not> s \<longrightarrow> synced st' pid = Some True)"
  using assms by (rule drain_message_result)

theorem drain_message_priority_witness:
  "synced (desync 1 (example_state [] [])) 1 = Some False
   \<and> \<not> map_is_stale (desync 1 (example_state [] [])) 1
   \<and> (\<exists>st'. drain_message 1 (desync 1 (example_state [] []))
               = Inr (Some (StateSyncFromServer (state 1 (desync 1 (example_state [] [])))), st')
            \<and> synced st' 1 = Some True)"
proof -
  let ?S = "desync 1 (example_state [] [])"
  have h: "synced ?S 1 = Some False" by (simp add: desync_def)
  have m: "\<not> map_is_stale ?S 1" by (simp add: map_is_stale_def desync_def example_state_def)
  from drain_message_priority [OF h] m h show ?thesis by simp
qed

section \<open>After the end of the game\<close>

text \<open>
  C6, as stated, fails: the last iteration of the tick loop queues the game-over turn
  state and sets the done flag, and the next drain returns that turn state.
\<close>

theorem drain_after_end_game_returns_game_over:
  "(case tick (example_env (\<lambda>n. 0)) (False, last_turn_state) of
      Inl e \<Rightarrow> False
    | Inr (csi, st) \<Rightarrow>
        done_flag st
        \<and> map_sum id fst (drain_message 1 st)
            = Inr (Some (GameStateFromServer (game_over_state 0 0 0))))"
  by (simp add: tick_def last_turn_state_def example_state_def example_turn_def TurnUpdate_def
      example_env_def end_game_def record_turn_state_def queue_put_def drain_message_def
      drain_map_update_def drain_actions_def drain_objectives_def drain_turn_state_def)

text \<open>
  C6, amended: \<open>end_game\<close> only sets the done flag and \<open>drain_message\<close> never
  reads it: a drain after \<open>end_game\<close> returns the message the same drain returns
  without it (nothing only when nothing is pending), and the flag stays set.
\<close>

theorem drain_message_ignores_done:
  "drain_message pid (end_game st) =
     (case drain_message pid st of Inl e \<Rightarrow> Inl e | Inr (m, st') \<Rightarrow> Inr (m, end_game st'))"
  by (auto simp: drain_message_def drain_map_update_def sync_message_for_transmission_def
      drain_actions_def drain_objectives_def drain_turn_state_def end_game_def state_def
      split: option.splits bool.splits list.splits)

section \<open>Collecting a set\<close>

lemma record_action_loop_total:
  "list_all (\<lambda>p. h (actor_id (snd p)) \<noteq> None) as \<Longrightarrow>
   \<exists>h'. record_action_loop a as h = Inr h'
     \<and> (\<forall>k. (h' k = None) = (h k = None))
     \<and> (\<forall>k q. h k = Some q \<longrightarrow> (\<exists>q'. h' k = Some q' \<and> set q \<subseteq> set q'))
     \<and> (\<forall>p \<in> set as. \<exists>q'. h' (actor_id (snd p)) = Some q' \<and> a \<in> set q')"
proof (induction as arbitrary: h)
  case Nil
  then show ?case by simp
next
  case (Cons p as)
  obtain k actor where p: "p = (k, actor)" by (cases p)
  from Cons.prems p obtain q where q: "h (actor_id actor) = Some q" by auto
  let ?h1 = "h(actor_id actor \<mapsto> q @ [a])"
  have "list_all (\<lambda>p. ?h1 (actor_id (snd p)) \<noteq> None) as"
    using Cons.prems by (auto simp: list_all_iff)
  from Cons.IH [OF this] obtain h' where h':
    "record_action_loop a as ?h1 = Inr h'"
    "\<forall>k. (h' k = None) = (?h1 k = None)"
    "\<forall>k q. ?h1 k = Some q \<longrightarrow> (\<exists>q'. h' k = Some q' \<and> set q \<subseteq> set q')"
    "\<forall>p \<in> set as. \<exists>q'. h' (actor_id (snd p)) = Some q' \<and> a \<in> set q'"
    by blast
  have s: "?h1 (actor_id actor) = Some (q @ [a])" by simp
  from h'(3)[rule_format, OF s] obtain qa where qa:
    "h' (actor_id actor) = Some qa" "set (q @ [a]) \<subseteq> set qa" by blast
  have 1: "record_action_loop a (p # as) h = Inr h'" using p q h'(1) by simp
  have 2: "\<forall>k. (h' k = None) = (h k = None)" using h'(2) q by (auto split: if_splits)
  have 3: "\<forall>k q0. h k = Some q0 \<longrightarrow> (\<exists>q'. h' k = Some q' \<and> set q0 \<subseteq> set q')"
  proof (intro allI impI)
    fix k0 q0 assume a0: "h k0 = Some q0"
    show "\<exists>q'. h' k0 = Some q' \<and> set q0 \<subseteq> set q'"
    proof (cases "k0 = actor_id actor")
      case True
      with a0 q have "q0 = q" by simp
      with qa True show ?thesis by auto
    next
      case False
      then have "?h1 k0 = Some q0" using a0 by simp
      from h'(3)[rule_format, OF this] show ?thesis .
    qed
  qed
  have 4: "\<exists>q'. h' (actor_id (snd p)) = Some q' \<and> a \<in> set q'" using p qa by auto
  from 1 2 3 4 h'(4) show ?case by auto
qed

lemma record_action_total:
  assumes "outboxes_ok st"
  shows "\<exists>ah. record_action a st = Inr (st\<lparr>action_history := ah\<rparr>)
           \<and> outboxes_ok (st\<lparr>action_history := ah\<rparr>)
           \<and> (\<forall>k. set (outbox st k) \<subseteq> set (outbox (st\<lparr>action_history := ah\<rparr>) k))
           \<and> (\<forall>p \<in> set (actors st). a \<in> set (outbox (st\<lparr>action_history := ah\<rparr>) (actor_id (snd p))))"
proof -
  from assms have "list_all (\<lambda>p. action_history st (actor_id (snd p)) \<noteq> None) (actors st)"
    by (simp add: outboxes_ok_def)
  from record_action_loop_total [OF this, of a] obtain h' where h':
    "record_action_loop a (actors st) (action_history st) = Inr h'"
    "\<forall>k. (h' k = None) = (action_history st k = None)"
    "\<forall>k q. action_history st k = Some q \<longrightarrow> (\<exists>q'. h' k = Some q' \<and> set q \<subseteq> set q')"
    "\<forall>p \<in> set (actors st). \<exists>q'. h' (actor_id (snd p)) = Some q' \<and> a \<in> set q'"
    by blast
  have 1: "record_action a st = Inr (st\<lparr>action_history := h'\<rparr>)"
    using h'(1) by (simp add: record_action_def)
  have 2: "outboxes_ok (st\<lparr>action_history := h'\<rparr>)"
    using assms h'(2) by (simp add: outboxes_ok_def list_all_iff)
  have 3: "\<forall>k. set (outbox st k) \<subseteq> set (outbox (st\<lparr>action_history := h'\<rparr>) k)"
  proof
    fix k
    show "set (outbox st k) \<subseteq> set (outbox (st\<lparr>action_history := h'\<rparr>) k)"
    proof (cases "action_history st k")
      case None
      then show ?thesis by (simp add: outbox_def)
    next
      case (Some q)
      from h'(3)[rule_format, OF Some] obtain q' where "h' k = Some q'" "set q \<subseteq> set q'" by blast
      with Some show ?thesis by (simp add: outbox_def)
    qed
  qed
  have 4: "\<forall>p \<in> set (actors st). a \<in> set (outbox (st\<lparr>action_history := h'\<rparr>) (actor_id (snd p)))"
  proof
    fix p assume "p \<in> set (actors st)"
    with h'(4) obtain q' where "h' (actor_id (snd p)) = Some q'" "a \<in> set q'" by blast
    then show "a \<in> set (outbox (st\<lparr>action_history := h'\<rparr>) (actor_id (snd p)))"
      by (simp add: outbox_def)
  qed
  from 1 2 3 4 show ?thesis by blast
qed


lemma outboxes_ok_cong:
  "actors st' = actors st \<Longrightarrow> action_history st' = action_history st \<Longrightarrow>
   outboxes_ok st' = outboxes_ok st"
  by (simp add: outboxes_ok_def)

lemma outbox_cong: "action_history st' = action_history st \<Longrightarrow> outbox st' k = outbox st k"
  by (simp add: outbox_def)

lemma record_actions_total:
  "outboxes_ok st \<Longrightarrow>
   \<exists>ah. record_actions as st = Inr (st\<lparr>action_history := ah\<rparr>)
     \<and> outboxes_ok (st\<lparr>action_history := ah\<rparr>)
     \<and> (\<forall>k. set (outbox st k) \<subseteq> set (outbox (st\<lparr>action_history := ah\<rparr>) k))"
proof (induction as arbitrary: st)
  case Nil
  have "st\<lparr>action_history := action_history st\<rparr> = st" by simp
  with Nil show ?case by (intro exI[of _ "action_history st"]) simp
next
  case (Cons a as)
  from record_action_total [OF Cons.prems, of a] obtain ah1 where 1:
    "record_action a st = Inr (st\<lparr>action_history := ah1\<rparr>)"
    "outboxes_ok (st\<lparr>action_history := ah1\<rparr>)"
    "\<forall>k. set (outbox st k) \<subseteq> set (outbox (st\<lparr>action_history := ah1\<rparr>) k)"
    by blast
  from Cons.IH [OF 1(2)] obtain ah2 where 2:
    "record_actions as (st\<lparr>action_history := ah1\<rparr>) = Inr (st\<lparr>action_history := ah2\<rparr>)"
    "outboxes_ok (st\<lparr>action_history := ah2\<rparr>)"
    "\<forall>k. set (outbox (st\<lparr>action_history := ah1\<rparr>) k) \<subseteq> set (outbox (st\<lparr>action_history := ah2\<rparr>) k)"
    by auto
  have "record_actions (a # as) st = Inr (st\<lparr>action_history := ah2\<rparr>)"
    using 1(1) 2(1) by simp
  moreover have "\<forall>k. set (outbox st k) \<subseteq> set (outbox (st\<lparr>action_history := ah2\<rparr>) k)"
    using 1(3) 2(3) by blast
  ultimately show ?case using 2(2) by blast
qed

lemma filter_deselected:
  "filter (\<lambda>c. card_id c \<noteq> i) (map (\<lambda>c. if card_id c = i then c\<lparr>selected := b\<rparr> else c) cs)
   = filter (\<lambda>c. card_id c \<noteq> i) cs"
  by (induction cs) auto

lemma clear_selected_cards_total:
  "outboxes_ok st \<Longrightarrow>
   \<exists>ah. clear_selected_cards sel st =
           Inr (st\<lparr>action_history := ah,
                   map_provider := (map_provider st)
                     \<lparr>cards := filter (\<lambda>x. card_id x \<notin> card_id ` set sel)
                                 (cards (map_provider st))\<rparr>\<rparr>)
     \<and> outboxes_ok (st\<lparr>action_history := ah\<rparr>)
     \<and> (\<forall>k. set (outbox st k) \<subseteq> set (outbox (st\<lparr>action_history := ah\<rparr>) k))
     \<and> (\<forall>c \<in> set sel. \<forall>p \<in> set (actors st).
           CardSelectAction (card_id c) False None
             \<in> set (outbox (st\<lparr>action_history := ah\<rparr>) (actor_id (snd p))))"
proof (induction sel arbitrary: st)
  case Nil
  have "st\<lparr>action_history := action_history st, map_provider := (map_provider st)
          \<lparr>cards := cards (map_provider st)\<rparr>\<rparr> = st" by simp
  with Nil show ?case by (intro exI[of _ "action_history st"]) simp
next
  case (Cons c sel)
  let ?i = "card_id c"
  let ?sa = "st\<lparr>map_provider := set_selected ?i False (map_provider st)\<rparr>"
  have oka: "outboxes_ok ?sa" using Cons.prems by (simp add: outboxes_ok_def)
  from record_action_total [OF oka, of "CardSelectAction ?i False None"] obtain ah1 where 1:
    "record_action (CardSelectAction ?i False None) ?sa = Inr (?sa\<lparr>action_history := ah1\<rparr>)"
    "outboxes_ok (?sa\<lparr>action_history := ah1\<rparr>)"
    "\<forall>k. set (outbox ?sa k) \<subseteq> set (outbox (?sa\<lparr>action_history := ah1\<rparr>) k)"
    "\<forall>p \<in> set (actors ?sa). CardSelectAction ?i False None
        \<in> set (outbox (?sa\<lparr>action_history := ah1\<rparr>) (actor_id (snd p)))"
    by blast
  let ?mp1 = "remove_card ?i (set_selected ?i False (map_provider st))"
  let ?sb = "st\<lparr>action_history := ah1, map_provider := ?mp1\<rparr>"
  have sb: "(?sa\<lparr>action_history := ah1\<rparr>)
              \<lparr>map_provider := remove_card ?i (map_provider (?sa\<lparr>action_history := ah1\<rparr>))\<rparr> = ?sb"
    by simp
  have okb: "outboxes_ok ?sb" using 1(2) by (simp add: outboxes_ok_def)
  from Cons.IH [OF okb] obtain ah2 where 2:
    "clear_selected_cards sel ?sb =
       Inr (?sb\<lparr>action_history := ah2,
               map_provider := (map_provider ?sb)
                 \<lparr>cards := filter (\<lambda>x. card_id x \<notin> card_id ` set sel) (cards (map_provider ?sb))\<rparr>\<rparr>)"
    "outboxes_ok (?sb\<lparr>action_history := ah2\<rparr>)"
    "\<forall>k. set (outbox ?sb k) \<subseteq> set (outbox (?sb\<lparr>action_history := ah2\<rparr>) k)"
    "\<forall>c \<in> set sel. \<forall>p \<in> set (actors ?sb).
        CardSelectAction (card_id c) False None
          \<in> set (outbox (?sb\<lparr>action_history := ah2\<rparr>) (actor_id (snd p)))"
    by blast
  have cards1: "cards ?mp1 = filter (\<lambda>x. card_id x \<noteq> ?i) (cards (map_provider st))"
    by (simp add: remove_card_def set_selected_def filter_deselected)
  have fl: "filter (\<lambda>x. card_id x \<notin> card_id ` set sel)
              (filter (\<lambda>x. card_id x \<noteq> ?i) (cards (map_provider st)))
            = filter (\<lambda>x. card_id x \<notin> card_id ` set (c # sel)) (cards (map_provider st))"
    by (auto intro: filter_cong)
  have mp_eq: "(map_provider ?sb)
                 \<lparr>cards := filter (\<lambda>x. card_id x \<notin> card_id ` set sel) (cards (map_provider ?sb))\<rparr>
               = (map_provider st)
                 \<lparr>cards := filter (\<lambda>x. card_id x \<notin> card_id ` set (c # sel))
                             (cards (map_provider st))\<rparr>"
    using cards1 fl by (simp add: remove_card_def set_selected_def)
  have r: "clear_selected_cards (c # sel) st =
           Inr (st\<lparr>action_history := ah2,
                   map_provider := (map_provider st)
                     \<lparr>cards := filter (\<lambda>x. card_id x \<notin> card_id ` set (c # sel))
                                 (cards (map_provider st))\<rparr>\<rparr>)"
    using 1(1) 2(1) sb mp_eq by simp
  have ok: "outboxes_ok (st\<lparr>action_history := ah2\<rparr>)"
    using 2(2) by (simp add: outboxes_ok_def)
  have mono1: "\<forall>k. set (outbox st k) \<subseteq> set (outbox (st\<lparr>action_history := ah1\<rparr>) k)"
    using 1(3) by (simp add: outbox_def)
  have mono2: "\<forall>k. set (outbox (st\<lparr>action_history := ah1\<rparr>) k)
                 \<subseteq> set (outbox (st\<lparr>action_history := ah2\<rparr>) k)"
    using 2(3) by (simp add: outbox_def)
  have mono: "\<forall>k. set (outbox st k) \<subseteq> set (outbox (st\<lparr>action_history := ah2\<rparr>) k)"
    using mono1 mono2 by blast
  have here1: "\<forall>p \<in> set (actors st). CardSelectAction ?i False None
        \<in> set (outbox (st\<lparr>action_history := ah1\<rparr>) (actor_id (snd p)))"
    using 1(4) by (simp add: outbox_def)
  have here: "\<forall>p \<in> set (actors st). CardSelectAction ?i False None
        \<in> set (outbox (st\<lparr>action_history := ah2\<rparr>) (actor_id (snd p)))"
    using here1 mono2 by blast
  have rest: "\<forall>c \<in> set sel. \<forall>p \<in> set (actors st).
        CardSelectAction (card_id c) False None
          \<in> set (outbox (st\<lparr>action_history := ah2\<rparr>) (actor_id (snd p)))"
    using 2(4) by (simp add: outbox_def)
  from r ok mono here rest show ?case by auto
qed


lemma valid_set_not_collide: "selected_valid_set mp \<Longrightarrow> \<not> selected_cards_collide mp"
  by (simp add: selected_valid_set_def selected_cards_collide_def)

lemma foldl_queue_put_last:
  "k' \<in> set ks \<Longrightarrow> \<exists>q. foldl (\<lambda>h k. queue_put k ts h) h ks k' = Some (q @ [ts])"
proof (induction ks rule: rev_induct)
  case Nil
  then show ?case by simp
next
  case (snoc k ks)
  show ?case
  proof (cases "k' = k")
    case True
    then show ?thesis by (simp add: queue_put_def)
  next
    case False
    with snoc show ?thesis by (simp add: queue_put_def)
  qed
qed

lemma collect_set_total:
  assumes "outboxes_ok st"
  shows "\<exists>st'. collect_set env sel st = Inr st'
           \<and> turn_state st' =
               TurnUpdate (turn (turn_state st)) (moves_remaining (turn_state st))
                 (turns_left (turn_state st) + added_turns (sets_collected (turn_state st)))
                 (turn_end (turn_state st)) (game_start (turn_state st))
                 (sets_collected (turn_state st) + 1) (score (turn_state st) + 1)
           \<and> (\<forall>k \<in> fst ` set (actors st). \<exists>q. turn_history st' k = Some (q @ [turn_state st']))
           \<and> cards (map_provider st') =
               (let kept = filter (\<lambda>x. card_id x \<notin> card_id ` set sel) (cards (map_provider st))
                in kept @ map (env_draw env kept) [0..<3])
           \<and> tiles (map_provider st') = tiles (map_provider st)
           \<and> actors st' = actors st \<and> map_stale st' = map_stale st
           \<and> (\<forall>c \<in> set sel. \<forall>p \<in> set (actors st).
                 CardSelectAction (card_id c) False None \<in> set (outbox st' (actor_id (snd p))))"
proof -
  let ?nts = "TurnUpdate (turn (turn_state st)) (moves_remaining (turn_state st))
                 (turns_left (turn_state st) + added_turns (sets_collected (turn_state st)))
                 (turn_end (turn_state st)) (game_start (turn_state st))
                 (sets_collected (turn_state st) + 1) (score (turn_state st) + 1)"
  let ?s1 = "record_turn_state ?nts st"
  let ?kept = "filter (\<lambda>x. card_id x \<notin> card_id ` set sel) (cards (map_provider st))"
  have f1: "actors ?s1 = actors st" "action_history ?s1 = action_history st"
    "map_provider ?s1 = map_provider st" "map_stale ?s1 = map_stale st" "turn_state ?s1 = ?nts"
    "turn_history ?s1 = foldl (\<lambda>h k. queue_put k ?nts h) (turn_history st) (map fst (actors st))"
    by (simp_all add: record_turn_state_def)
  have ok1: "outboxes_ok ?s1" using assms f1 by (simp add: outboxes_ok_def)
  from clear_selected_cards_total [OF ok1, of sel] obtain ah where c:
    "clear_selected_cards sel ?s1 =
       Inr (?s1\<lparr>action_history := ah,
               map_provider := (map_provider ?s1)
                 \<lparr>cards := filter (\<lambda>x. card_id x \<notin> card_id ` set sel) (cards (map_provider ?s1))\<rparr>\<rparr>)"
    "\<forall>c \<in> set sel. \<forall>p \<in> set (actors ?s1).
        CardSelectAction (card_id c) False None
          \<in> set (outbox (?s1\<lparr>action_history := ah\<rparr>) (actor_id (snd p)))"
    by blast
  let ?s2 = "?s1\<lparr>action_history := ah,
               map_provider := (map_provider ?s1)
                 \<lparr>cards := filter (\<lambda>x. card_id x \<notin> card_id ` set sel) (cards (map_provider ?s1))\<rparr>\<rparr>"
  let ?s3 = "?s2\<lparr>map_provider := add_random_cards (env_draw env) 3 (map_provider ?s2)\<rparr>"
  have r: "collect_set env sel st = Inr ?s3"
    using c(1) by (simp add: collect_set_def Let_def)
  have t: "turn_state ?s3 = ?nts" by (simp add: f1)
  have h: "\<forall>k \<in> fst ` set (actors st). \<exists>q. turn_history ?s3 k = Some (q @ [turn_state ?s3])"
  proof
    fix k assume "k \<in> fst ` set (actors st)"
    then have "k \<in> set (map fst (actors st))" by simp
    from foldl_queue_put_last [OF this, of ?nts "turn_history st"]
    show "\<exists>q. turn_history ?s3 k = Some (q @ [turn_state ?s3])" by (simp add: f1)
  qed
  have cs: "cards (map_provider ?s3) = (let kept = ?kept in kept @ map (env_draw env kept) [0..<3])"
    by (simp add: add_random_cards_def f1 Let_def)
  have tl: "tiles (map_provider ?s3) = tiles (map_provider st)"
    by (simp add: add_random_cards_def f1)
  have a: "actors ?s3 = actors st" "map_stale ?s3 = map_stale st" by (simp_all add: f1)
  have o: "\<forall>c \<in> set sel. \<forall>p \<in> set (actors st).
                 CardSelectAction (card_id c) False None \<in> set (outbox ?s3 (actor_id (snd p)))"
    using c(2) by (simp add: outbox_def f1)
  from r t h cs tl a o show ?thesis by blast
qed

text \<open>
  C4: when the provider reports a valid selected set, the card logic of the tick
  records a turn state with one more set and one more point and with the bonus turns
  of the table (5 after no set, 4 after one or two, 3 after three or four, else 0);
  it announces the de-selection of each of the three cards to every actor, removes
  them from the provider, adds the three cards the provider draws, refreshes the map
  update and marks every actor's map stale.
\<close>

theorem valid_set_collected:
  assumes "outboxes_ok st" and "selected_valid_set (map_provider st)"
  shows "\<exists>st'. card_logic env (csi, st) = Inr (False, st')
           \<and> length (selected_cards (map_provider st)) = 3
           \<and> sets_collected (turn_state st') = sets_collected (turn_state st) + 1
           \<and> score (turn_state st') = score (turn_state st) + 1
           \<and> turns_left (turn_state st') =
               turns_left (turn_state st)
               + (if sets_collected (turn_state st) = 0 then 5
                  else if sets_collected (turn_state st) \<in> {1, 2} then 4
                  else if sets_collected (turn_state st) \<in> {3, 4} then 3
                  else 0)
           \<and> turn (turn_state st') = turn (turn_state st)
           \<and> moves_remaining (turn_state st') = moves_remaining (turn_state st)
           \<and> (\<forall>k \<in> fst ` set (actors st). \<exists>q. turn_history st' k = Some (q @ [turn_state st']))
           \<and> cards (map_provider st') =
               (let kept = filter (\<lambda>x. card_id x \<notin> card_id ` set (selected_cards (map_provider st)))
                             (cards (map_provider st))
                in kept @ map (env_draw env kept) [0..<3])
           \<and> (\<forall>c \<in> set (selected_cards (map_provider st)). \<forall>p \<in> set (actors st).
                 CardSelectAction (card_id c) False None \<in> set (outbox st' (actor_id (snd p))))
           \<and> (\<forall>k \<in> fst ` set (actors st). map_stale st' k = Some True)
           \<and> map_update st' = provider_map (map_provider st')"
proof -
  let ?sel = "selected_cards (map_provider st)"
  let ?blues = "map (\<lambda>c. CardSelectAction (card_id c) True (Some blue)) ?sel"
  have nc: "\<not> selected_cards_collide (map_provider st)"
    using assms(2) by (rule valid_set_not_collide)
  have len: "length ?sel = 3" using assms(2) by (simp add: selected_valid_set_def)
  from record_actions_total [OF assms(1), of ?blues] obtain ah0 where b:
    "record_actions ?blues st = Inr (st\<lparr>action_history := ah0\<rparr>)"
    "outboxes_ok (st\<lparr>action_history := ah0\<rparr>)"
    by blast
  define s2 where "s2 = (if csi then st\<lparr>action_history := ah0\<rparr> else st)"
  have ok2: "outboxes_ok s2" using b(2) assms(1) by (simp add: s2_def)
  have f2: "map_provider s2 = map_provider st" "actors s2 = actors st"
    "turn_state s2 = turn_state st" "map_stale s2 = map_stale st"
    by (simp_all add: s2_def)
  from collect_set_total [OF ok2, of env ?sel] obtain s3 where c:
    "collect_set env ?sel s2 = Inr s3"
    "turn_state s3 =
       TurnUpdate (turn (turn_state s2)) (moves_remaining (turn_state s2))
         (turns_left (turn_state s2) + added_turns (sets_collected (turn_state s2)))
         (turn_end (turn_state s2)) (game_start (turn_state s2))
         (sets_collected (turn_state s2) + 1) (score (turn_state s2) + 1)"
    "\<forall>k \<in> fst ` set (actors s2). \<exists>q. turn_history s3 k = Some (q @ [turn_state s3])"
    "cards (map_provider s3) =
       (let kept = filter (\<lambda>x. card_id x \<notin> card_id ` set ?sel) (cards (map_provider s2))
        in kept @ map (env_draw env kept) [0..<3])"
    "actors s3 = actors s2" "map_stale s3 = map_stale s2"
    "\<forall>c \<in> set ?sel. \<forall>p \<in> set (actors s2).
        CardSelectAction (card_id c) False None \<in> set (outbox s3 (actor_id (snd p)))"
    by blast
  have r: "card_logic env (csi, st) = Inr (False, mark_map_stale s3)"
  proof (cases csi)
    case True
    with c(1) have "collect_set env ?sel (st\<lparr>action_history := ah0\<rparr>) = Inr s3"
      by (simp add: s2_def)
    with True nc assms(2) b(1) show ?thesis by (simp add: card_logic_def Let_def)
  next
    case False
    with c(1) have "collect_set env ?sel st = Inr s3" by (simp add: s2_def)
    with False nc assms(2) show ?thesis by (simp add: card_logic_def Let_def)
  qed
  have m: "turn_state (mark_map_stale s3) = turn_state s3"
    "turn_history (mark_map_stale s3) = turn_history s3"
    "map_provider (mark_map_stale s3) = map_provider s3"
    "\<And>k. outbox (mark_map_stale s3) k = outbox s3 k"
    "map_update (mark_map_stale s3) = provider_map (map_provider (mark_map_stale s3))"
    "\<forall>k \<in> fst ` set (actors st). map_stale (mark_map_stale s3) k = Some True"
    by (simp_all add: mark_map_stale_def outbox_def foldl_upd_const c(5) f2)
  show ?thesis
    apply (rule exI[of _ "mark_map_stale s3"])
    using r len c m f2
    by (simp add: TurnUpdate_def added_turns_def)
qed


theorem valid_set_collected_witness:
  "outboxes_ok (example_state [] [])
   \<and> selected_valid_set (map_provider (example_state [] []))
   \<and> (\<exists>st'. card_logic (example_env (\<lambda>n. 0)) (False, example_state [] []) = Inr (False, st')
         \<and> sets_collected (turn_state st') = 1 \<and> score (turn_state st') = 1
         \<and> turns_left (turn_state st') = 11
         \<and> map card_id (cards (map_provider st')) = [14, 100, 101, 102]
         \<and> CardSelectAction 11 False None \<in> set (outbox st' 2)
         \<and> map_stale st' 1 = Some True \<and> map_stale st' 2 = Some True)"
proof -
  let ?S = "example_state [] []"
  let ?env = "example_env (\<lambda>n. 0)"
  have sel: "selected_cards (map_provider ?S)
             = [mk_card 11 (coord 0 5 1) 1 True, mk_card 12 (coord 0 5 2) 2 True,
                mk_card 13 (coord 0 5 3) 3 True]"
    by (simp add: example_state_def example_provider_def selected_cards_def mk_card_def)
  have h1: "outboxes_ok ?S"
    by (simp add: outboxes_ok_def example_state_def mk_actor_def)
  have h2: "selected_valid_set (map_provider ?S)"
    unfolding selected_valid_set_def sel by (simp add: mk_card_def share_attribute_def)
  have ks: "1 \<in> fst ` set (actors ?S)" "2 \<in> fst ` set (actors ?S)"
    "(2, mk_actor 2 FOLLOWER []) \<in> set (actors ?S)"
    "mk_card 11 (coord 0 5 1) 1 True \<in> set (selected_cards (map_provider ?S))"
    unfolding sel by (simp_all add: example_state_def)
  have ts: "sets_collected (turn_state ?S) = 0" "score (turn_state ?S) = 0"
    "turns_left (turn_state ?S) = 6"
    by (simp_all add: example_state_def example_turn_def TurnUpdate_def)
  have kept: "filter (\<lambda>x. card_id x \<notin> card_id ` set (selected_cards (map_provider ?S)))
                (cards (map_provider ?S)) = [mk_card 14 (coord 0 5 4) 1 False]"
    unfolding sel by (simp add: example_state_def example_provider_def mk_card_def)
  have up: "[0..<3] = [0, 1, 2]" by (simp add: upt_rec)
  from valid_set_collected [OF h1 h2, of ?env False] obtain st' where r:
    "card_logic ?env (False, ?S) = Inr (False, st')"
    "sets_collected (turn_state st') = sets_collected (turn_state ?S) + 1"
    "score (turn_state st') = score (turn_state ?S) + 1"
    "turns_left (turn_state st') =
       turns_left (turn_state ?S)
       + (if sets_collected (turn_state ?S) = 0 then 5
          else if sets_collected (turn_state ?S) \<in> {1, 2} then 4
          else if sets_collected (turn_state ?S) \<in> {3, 4} then 3
          else 0)"
    "cards (map_provider st') =
       (let kept = filter (\<lambda>x. card_id x \<notin> card_id ` set (selected_cards (map_provider ?S)))
                     (cards (map_provider ?S))
        in kept @ map (env_draw ?env kept) [0..<3])"
    "\<forall>c \<in> set (selected_cards (map_provider ?S)). \<forall>p \<in> set (actors ?S).
        CardSelectAction (card_id c) False None \<in> set (outbox st' (actor_id (snd p)))"
    "\<forall>k \<in> fst ` set (actors ?S). map_stale st' k = Some True"
    by blast
  have c: "map card_id (cards (map_provider st')) = [14, 100, 101, 102]"
    unfolding r(5) kept up by (simp add: Let_def example_env_def mk_card_def)
  have d: "CardSelectAction 11 False None \<in> set (outbox st' 2)"
    using r(6)[rule_format, OF ks(4) ks(3)] by (simp add: mk_card_def mk_actor_def)
  from h1 h2 r(1) r(2,3,4) ts c d r(7) ks(1,2) show ?thesis by auto
qed

section \<open>Moves remaining\<close>

lemma record_turn_state_turn [simp]: "turn_state (record_turn_state ts st) = ts"
  by (simp add: record_turn_state_def)

lemma end_turn_if_over_moves:
  "moves_remaining (turn_state (end_turn_if_over env f st)) =
     (if env_now env (clock_pos st) \<ge> turn_end (turn_state st) \<or> f
      then moves_per_turn (opposite_role (turn (turn_state st)))
      else max (moves_remaining (turn_state st) - 1) 0)"
  by (simp add: end_turn_if_over_def now_def Let_def TurnUpdate_def opposite_role_def
      split: prod.splits)

lemma end_turn_if_over_nonneg: "0 \<le> moves_remaining (turn_state (end_turn_if_over env f st))"
  by (simp add: end_turn_if_over_moves moves_per_turn_def LEADER_MOVES_PER_TURN_def
      FOLLOWER_MOVES_PER_TURN_def)

lemma record_action_frame:
  "record_action a st = Inr st' \<Longrightarrow>
   turn_state st' = turn_state st \<and> clock_pos st' = clock_pos st \<and> actors st' = actors st
   \<and> map_provider st' = map_provider st"
  by (auto simp: record_action_def split: sum.splits)

lemma check_for_stepped_on_cards_frame:
  "check_for_stepped_on_cards aid a col st = Inr st' \<Longrightarrow>
   turn_state st' = turn_state st \<and> clock_pos st' = clock_pos st \<and> actors st' = actors st"
  by (auto simp: check_for_stepped_on_cards_def Let_def
      split: option.splits if_splits dest!: record_action_frame)

lemma process_actor_commit:
  assumes "map_of (actors st) aid = Some actor" and "has_actions actor"
    and "turn (turn_state st) = role actor" and "moves_remaining (turn_state st) \<noteq> 0"
    and "valid_action (env_cartesian env) aid (hd (actions actor)) = Inr True"
    and "process_actor env csi aid st = Inr st'"
  shows "\<exists>st2. st' = end_turn_if_over env False st2 \<and> turn_state st2 = turn_state st
           \<and> clock_pos st2 = clock_pos st
           \<and> actors st2 = AList.update aid (Actor_step (env_add env) actor) (actors st)"
proof -
  from assms(2) obtain a rest where q: "actions actor = a # rest"
    by (cases "actions actor") (auto simp: has_actions_def)
  let ?s0 = "set_actor aid (Actor_step (env_add env) actor) st"
  from assms q obtain st1 st2 where s:
    "record_action (Proposed a) ?s0 = Inr st1"
    "check_for_stepped_on_cards aid a (if \<not> csi then blue else red) st1 = Inr st2"
    "st' = end_turn_if_over env False st2"
    by (auto simp: process_actor_def Actor_peek_def has_actions_def split: sum.splits)
  from record_action_frame [OF s(1)] check_for_stepped_on_cards_frame [OF s(2)]
  have "turn_state st2 = turn_state st" "clock_pos st2 = clock_pos st"
    "actors st2 = AList.update aid (Actor_step (env_add env) actor) (actors st)"
    by (simp_all add: set_actor_def)
  with s(3) show ?thesis by blast
qed

lemma process_actor_nonneg:
  assumes "process_actor env csi aid st = Inr st'" and "0 \<le> moves_remaining (turn_state st)"
  shows "0 \<le> moves_remaining (turn_state st')"
proof -
  from assms(1) obtain actor where a: "map_of (actors st) aid = Some actor"
    by (auto simp: process_actor_def split: option.splits)
  show ?thesis
  proof (cases "has_actions actor")
    case False
    with a assms(1) have "st' = st" by (simp add: process_actor_def)
    with assms(2) show ?thesis by simp
  next
    case True
    then obtain x rest where q: "actions actor = x # rest"
      by (cases "actions actor") (auto simp: has_actions_def)
    show ?thesis
    proof (cases "turn (turn_state st) \<noteq> role actor \<or> moves_remaining (turn_state st) = 0
                  \<or> valid_action (env_cartesian env) aid (hd (actions actor)) = Inr False")
      case refused: True
      from process_actor_refuse [OF a True refused, of csi] assms(1)
      have "turn_state st' = turn_state st" by (simp add: drop_and_desync_eq)
      with assms(2) show ?thesis by simp
    next
      case False
      with a True q assms(1)
      have v: "valid_action (env_cartesian env) aid (hd (actions actor)) = Inr True"
        by (auto simp: process_actor_def Actor_peek_def split: sum.splits bool.splits)
      from False have "turn (turn_state st) = role actor" "moves_remaining (turn_state st) \<noteq> 0"
        by simp_all
      from process_actor_commit [OF a True this v assms(1)]
      obtain st2 where "st' = end_turn_if_over env False st2" by blast
      then show ?thesis by (simp add: end_turn_if_over_nonneg)
    qed
  qed
qed

lemma record_actions_frame:
  "record_actions as st = Inr st' \<Longrightarrow> turn_state st' = turn_state st"
  by (induction as arbitrary: st) (auto split: sum.splits dest!: record_action_frame)

lemma clear_selected_cards_frame:
  "clear_selected_cards sel st = Inr st' \<Longrightarrow> turn_state st' = turn_state st"
  by (induction sel arbitrary: st) (auto split: sum.splits dest!: record_action_frame)

lemma collect_set_moves:
  "collect_set env sel st = Inr st' \<Longrightarrow>
   moves_remaining (turn_state st') = moves_remaining (turn_state st)"
  by (auto simp: collect_set_def Let_def TurnUpdate_def
      split: sum.splits dest!: clear_selected_cards_frame)

lemma card_logic_moves:
  assumes "card_logic env (csi, st) = Inr (csi', st')"
  shows "moves_remaining (turn_state st') = moves_remaining (turn_state st)"
proof -
  have m: "\<And>s. turn_state (mark_map_stale s) = turn_state s" by (simp add: mark_map_stale_def)
  from assms show ?thesis
    by (auto simp: card_logic_def Let_def m
        split: sum.splits if_splits dest!: record_actions_frame collect_set_moves)
qed

lemma heartbeat_moves:
  "moves_remaining (turn_state (heartbeat env st)) = moves_remaining (turn_state st)"
  by (simp add: heartbeat_def now_def Let_def TurnUpdate_def split: prod.splits)

lemma turn_expiry_nonneg:
  "0 \<le> moves_remaining (turn_state st) \<Longrightarrow> 0 \<le> moves_remaining (turn_state (turn_expiry env st))"
  by (simp add: turn_expiry_def now_def Let_def end_turn_if_over_nonneg split: prod.splits)

lemma handle_actions_frame:
  "handle_actions aid as st = Inr st' \<Longrightarrow> turn_state st' = turn_state st"
  by (induction as arbitrary: st)
    (auto simp: handle_action_def desync_def set_actor_def split: sum.splits option.splits if_splits)

lemma handle_packet_nonneg:
  assumes "handle_packet env u aid m st = Inr st'" and "0 \<le> moves_remaining (turn_state st)"
  shows "0 \<le> moves_remaining (turn_state st')"
proof (cases m)
  case (ACTIONS as)
  with assms handle_actions_frame [of aid as st st'] show ?thesis by simp
next
  case (OBJECTIVE ob)
  with assms show ?thesis
    by (auto simp: handle_objective_def mark_objectives_stale_def split: option.splits if_splits)
next
  case (OBJECTIVE_COMPLETED oc)
  with assms show ?thesis
    by (auto simp: handle_objective_complete_def mark_objectives_stale_def
        split: option.splits if_splits)
next
  case TURN_COMPLETE
  with assms show ?thesis
    by (auto simp: handle_turn_complete_def end_turn_if_over_nonneg split: option.splits if_splits)
next
  case STATE_SYNC_REQUEST
  with assms show ?thesis by (auto simp: desync_def)
next
  case UNKNOWN_TYPE
  with assms show ?thesis by auto
qed

lemma drain_message_frame:
  "drain_message pid st = Inr (m, st') \<Longrightarrow> turn_state st' = turn_state st"
  by (auto simp: drain_message_def drain_map_update_def sync_message_for_transmission_def
      drain_actions_def drain_objectives_def drain_turn_state_def Let_def
      split: option.splits bool.splits list.splits if_splits prod.splits)

lemma reachable_moves_nonneg:
  assumes "reachable env st" and "\<forall>g s c. 0 \<le> moves_remaining (env_GameOverMessage env g s c)"
  shows "0 \<le> moves_remaining (turn_state st)"
  using assms(1)
proof (induction rule: reachable.induct)
  case (start mp shuffled)
  show ?case by (simp add: init_state_def TurnUpdate_def LEADER_MOVES_PER_TURN_def)
next
  case (over st)
  show ?case using assms(2) by (simp add: end_game_def)
next
  case (beat st)
  then show ?case by (simp add: heartbeat_moves)
next
  case (expiry st)
  then show ?case by (simp add: turn_expiry_nonneg)
next
  case (actor st csi aid st')
  then show ?case by (auto dest: process_actor_nonneg)
next
  case (cards st csi csi' st')
  then show ?case by (auto dest: card_logic_moves)
next
  case (packet st u aid m st')
  then show ?case by (auto dest: handle_packet_nonneg)
next
  case (admit st i r)
  then show ?case by (simp add: create_actor_def Let_def desync_all_def)
next
  case (leave st aid)
  then show ?case by (simp add: free_actor_def desync_all_def)
next
  case (drained st pid m st')
  then show ?case by (auto dest: drain_message_frame)
next
  case (ended st)
  then show ?case by (simp add: end_game_def)
qed

lemma actor_loop_reachable:
  "reachable env st \<Longrightarrow> actor_loop env csi ids st = Inr st' \<Longrightarrow> reachable env st'"
proof (induction ids arbitrary: st)
  case Nil
  then show ?case by simp
next
  case (Cons aid ids)
  from Cons.prems(2) obtain st1 where
    s: "process_actor env csi aid st = Inr st1" "actor_loop env csi ids st1 = Inr st'"
    by (auto split: sum.splits)
  from Cons.prems(1) s(1) have "reachable env st1" by (rule reachable.actor)
  from Cons.IH [OF this s(2)] show ?case .
qed

lemma tick_reachable:
  assumes "reachable env st" and "tick env (csi, st) = Inr (csi', st')"
  shows "reachable env st'"
proof (cases "done_flag st")
  case True
  with assms show ?thesis by (simp add: tick_def)
next
  case False
  show ?thesis
  proof (cases "turns_left (turn_state st) = - 1")
    case True
    with False assms(2) have "st' = end_game
              (record_turn_state
                 (env_GameOverMessage env (game_start (turn_state st))
                    (sets_collected (turn_state st)) (score (turn_state st)))
                 st)"
      by (simp add: tick_def)
    with assms(1) show ?thesis by (simp add: reachable.over)
  next
    case nt: False
    let ?s1 = "turn_expiry env (heartbeat env st)"
    from False nt assms(2) obtain st2 where
      s: "actor_loop env csi (map fst (actors ?s1)) ?s1 = Inr st2"
         "card_logic env (csi, st2) = Inr (csi', st')"
      by (auto simp: tick_def Let_def split: sum.splits)
    have "reachable env ?s1" using assms(1) by (intro reachable.expiry reachable.beat)
    from actor_loop_reachable [OF this s(1)] have "reachable env st2" .
    from this s(2) show ?thesis by (rule reachable.cards)
  qed
qed


lemma moving_state_eq:
  "moving_state (example_env clk) =
     \<lparr>actors = [(1, mk_actor 1 LEADER [unit_step]), (2, mk_actor 2 FOLLOWER [])],
      map_provider = quiet_provider, objectives = [], objectives_stale = Map.empty,
      map_update = provider_map quiet_provider, map_stale = Map.empty,
      synced = [1 \<mapsto> False, 2 \<mapsto> False],
      action_history = [1 \<mapsto> [], 2 \<mapsto> []],
      last_tick = clk 0, turn_history = Map.empty,
      turn_state = TurnUpdate LEADER 5 6 (clk 1 + 60000000) (clk 2) 0 0,
      spawn_points = [], done_flag = False, clock_pos = 3\<rparr>"
  by (simp add: moving_state_def joined_state_def init_state_def create_actor_def Let_def
      desync_all_def handle_action_def set_actor_def add_action_def mk_actor_def unit_step_def
      mk_action_def example_env_def turn_duration_def seconds_def LEADER_MOVES_PER_TURN_def)

lemma moving_state_reachable: "reachable (example_env clk) (moving_state (example_env clk))"
proof -
  let ?env = "example_env clk"
  have 1: "reachable ?env (joined_state ?env)"
    unfolding joined_state_def by (intro reachable.admit reachable.start)
  have "handle_packet ?env [] 1 (ACTIONS [unit_step]) (joined_state ?env) = Inr (moving_state ?env)"
    by (simp add: moving_state_def joined_state_def init_state_def create_actor_def Let_def
      desync_all_def handle_action_def set_actor_def add_action_def unit_step_def mk_action_def)
  with 1 show ?thesis by (rule reachable.packet)
qed

lemma unit_step_valid: "valid_action flat_cartesian 1 unit_step = Inr True"
proof -
  have sq: "(1::real)\<^sup>2 \<le> max_float" "(0::real)\<^sup>2 \<le> max_float"
    using small_square [of 1] small_square [of 0] by simp_all
  have "\<not> (1::real)\<^sup>2 + 0\<^sup>2 > max_float" using not_over_max_float [of "1\<^sup>2 + 0\<^sup>2"] by simp
  with cartesian_norm_finite [OF sq] have "cartesian_norm (Finite 1, Finite 0) = Inr (Finite 1)"
    by simp
  with unit_step_projection show ?thesis
    by (simp add: valid_action_def translate_too_long_def unit_step_def mk_action_def)
qed

lemma unit_step_fields:
  "displacement unit_step = coord 0 0 1" "rotation unit_step = Finite 0"
  "action_type unit_step = TRANSLATE"
  by (simp_all add: unit_step_def mk_action_def)

lemma py_round_zero: "py_round 0 = Finite 0"
  using not_over_max_float [of 0] not_under_max_float [of 0] by (simp add: py_round_def)

lemma process_moving_state:
  "process_actor (example_env clk) False 1 (moving_state (example_env clk)) =
     Inr (end_turn_if_over (example_env clk) False
            ((moving_state (example_env clk))
               \<lparr>actors := [(1, (mk_actor 1 LEADER [])\<lparr>location := coord 0 0 1\<rparr>),
                           (2, mk_actor 2 FOLLOWER [])],
                action_history := [1 \<mapsto> [Proposed unit_step], 2 \<mapsto> [Proposed unit_step]]\<rparr>))"
  unfolding moving_state_eq
  by (simp add: process_actor_def has_actions_def Actor_peek_def TurnUpdate_def
      set_actor_def record_action_def check_for_stepped_on_cards_def card_by_location_def
      quiet_provider_def mk_actor_def example_env_def Actor_step_def unit_step_fields
      unit_step_valid py_round_zero plain_add_def coord_def origin_coord_def)


text \<open>
  C5, as stated, fails for a move committed just after the turn's time has run out:
  the tick below tests the expiry at 59.999995 s, commits the leader's step at
  60.000006 s, and \<open>end_turn_if_over\<close> then ends the turn instead of counting the
  move, so \<open>moves_remaining\<close> goes from 5 to the follower's 10.
\<close>

theorem late_commit_resets_moves:
  "reachable (example_env late_clock) (moving_state (example_env late_clock))
   \<and> moves_remaining (turn_state (moving_state (example_env late_clock))) = 5
   \<and> (case tick (example_env late_clock) (False, moving_state (example_env late_clock)) of
         Inl e \<Rightarrow> False
       | Inr (csi, st') \<Rightarrow>
           map_option location (map_of (actors st') 1) = Some (coord 0 0 1)
           \<and> turn (turn_state st') = FOLLOWER
           \<and> moves_remaining (turn_state st') = 10)"
proof -
  have t: "(case tick (example_env late_clock) (False, moving_state (example_env late_clock)) of
         Inl e \<Rightarrow> False
       | Inr (csi, st') \<Rightarrow>
           map_option location (map_of (actors st') 1) = Some (coord 0 0 1)
           \<and> turn (turn_state st') = FOLLOWER
           \<and> moves_remaining (turn_state st') = 10)"
    unfolding moving_state_eq
    by (simp add: tick_def heartbeat_def turn_expiry_def now_def Let_def late_clock_def
      record_turn_state_def queue_put_def end_turn_if_over_def moves_per_turn_def
      FOLLOWER_MOVES_PER_TURN_def turn_duration_def seconds_def card_logic_def
      selected_cards_def selected_cards_collide_def selected_valid_set_def
      process_actor_def has_actions_def Actor_peek_def TurnUpdate_def
      set_actor_def record_action_def check_for_stepped_on_cards_def card_by_location_def
      quiet_provider_def mk_actor_def example_env_def Actor_step_def unit_step_fields
      unit_step_valid py_round_zero plain_add_def coord_def origin_coord_def)
  have m: "moves_remaining (turn_state (moving_state (example_env late_clock))) = 5"
    unfolding moving_state_eq by (simp add: TurnUpdate_def)
  from moving_state_reachable m t show ?thesis by blast
qed


text \<open>
  C5, amended: in every reachable state \<open>moves_remaining\<close> is at least 0, provided
  the game-over turn state is built with a non-negative \<open>moves_remaining\<close>; the states
  an iteration of the tick loop produces are reachable; and a committed move lowers
  \<open>moves_remaining\<close> by exactly 1 when the clock read at the commit is before the end
  of the turn, and otherwise ends the turn, which sets \<open>moves_remaining\<close> to the moves
  per turn of the other role.
\<close>

theorem moves_remaining_invariant:
  assumes "reachable env st"
    and "\<forall>g s c. 0 \<le> moves_remaining (env_GameOverMessage env g s c)"
  shows "0 \<le> moves_remaining (turn_state st)
       \<and> (\<forall>csi csi' st'. tick env (csi, st) = Inr (csi', st') \<longrightarrow> reachable env st')
       \<and> (\<forall>csi aid actor st'.
             map_of (actors st) aid = Some actor \<and> has_actions actor
             \<and> turn (turn_state st) = role actor \<and> moves_remaining (turn_state st) \<noteq> 0
             \<and> valid_action (env_cartesian env) aid (hd (actions actor)) = Inr True
             \<and> process_actor env csi aid st = Inr st'
             \<longrightarrow> moves_remaining (turn_state st') =
                   (if env_now env (clock_pos st) < turn_end (turn_state st)
                    then moves_remaining (turn_state st) - 1
                    else moves_per_turn (opposite_role (turn (turn_state st)))))"
proof -
  have nn: "0 \<le> moves_remaining (turn_state st)"
    using assms by (rule reachable_moves_nonneg)
  have tk: "\<forall>csi csi' st'. tick env (csi, st) = Inr (csi', st') \<longrightarrow> reachable env st'"
    using assms(1) by (blast intro: tick_reachable)
  have cm: "moves_remaining (turn_state st') =
                   (if env_now env (clock_pos st) < turn_end (turn_state st)
                    then moves_remaining (turn_state st) - 1
                    else moves_per_turn (opposite_role (turn (turn_state st))))"
    if h: "map_of (actors st) aid = Some actor" "has_actions actor"
      "turn (turn_state st) = role actor" "moves_remaining (turn_state st) \<noteq> 0"
      "valid_action (env_cartesian env) aid (hd (actions actor)) = Inr True"
      "process_actor env csi aid st = Inr st'"
    for csi aid actor st'
  proof -
    from process_actor_commit [OF h] obtain st2 where
      s: "st' = end_turn_if_over env False st2" "turn_state st2 = turn_state st"
         "clock_pos st2 = clock_pos st"
      by blast
    from nn h(4) have "max (moves_remaining (turn_state st) - 1) 0 = moves_remaining (turn_state st) - 1"
      by simp
    with s show ?thesis by (auto simp: end_turn_if_over_moves)
  qed
  from nn tk cm show ?thesis by blast
qed

theorem moves_remaining_invariant_witness:
  "reachable (example_env (\<lambda>n. 0)) (moving_state (example_env (\<lambda>n. 0)))
   \<and> (\<forall>g s c. 0 \<le> moves_remaining (env_GameOverMessage (example_env (\<lambda>n. 0)) g s c))
   \<and> map_of (actors (moving_state (example_env (\<lambda>n. 0)))) 1 = Some (mk_actor 1 LEADER [unit_step])
   \<and> has_actions (mk_actor 1 LEADER [unit_step])
   \<and> turn (turn_state (moving_state (example_env (\<lambda>n. 0)))) = role (mk_actor 1 LEADER [unit_step])
   \<and> moves_remaining (turn_state (moving_state (example_env (\<lambda>n. 0)))) = 5
   \<and> valid_action (env_cartesian (example_env (\<lambda>n. 0))) 1 (hd (actions (mk_actor 1 LEADER [unit_step])))
       = Inr True
   \<and> (\<exists>st'. process_actor (example_env (\<lambda>n. 0)) False 1 (moving_state (example_env (\<lambda>n. 0))) = Inr st'
         \<and> moves_remaining (turn_state st') = 4)"
proof -
  let ?env = "example_env (\<lambda>n. 0)"
  let ?S = "moving_state ?env"
  let ?a = "mk_actor 1 LEADER [unit_step]"
  have r: "reachable ?env ?S" by (rule moving_state_reachable)
  have g: "\<forall>g s c. 0 \<le> moves_remaining (env_GameOverMessage ?env g s c)"
    by (simp add: example_env_def game_over_state_def)
  have h1: "map_of (actors ?S) 1 = Some ?a" unfolding moving_state_eq by simp
  have h2: "has_actions ?a" by (simp add: has_actions_def mk_actor_def)
  have h3: "turn (turn_state ?S) = role ?a"
    unfolding moving_state_eq by (simp add: TurnUpdate_def mk_actor_def)
  have h4: "moves_remaining (turn_state ?S) = 5"
    unfolding moving_state_eq by (simp add: TurnUpdate_def)
  have h5: "valid_action (env_cartesian ?env) 1 (hd (actions ?a)) = Inr True"
    using unit_step_valid by (simp add: example_env_def mk_actor_def)
  have t: "env_now ?env (clock_pos ?S) < turn_end (turn_state ?S)"
    unfolding moving_state_eq by (simp add: TurnUpdate_def example_env_def)
  obtain st' where p: "process_actor ?env False 1 ?S = Inr st'"
    using process_moving_state by blast
  from moves_remaining_invariant [OF r g] h1 h2 h3 h4 h5 p
  have "moves_remaining (turn_state st') =
          (if env_now ?env (clock_pos ?S) < turn_end (turn_state ?S)
           then moves_remaining (turn_state ?S) - 1
           else moves_per_turn (opposite_role (turn (turn_state ?S))))"
    by (metis zero_neq_numeral)
  with t h4 have "moves_remaining (turn_state st') = 4" by simp
  with r g h1 h2 h3 h4 h5 p show ?thesis by blast
qed

section \<open>Pongs\<close>

text \<open>
  C8 asks that each Pong is sent exactly once. \<open>step\<close> sends every queued message
  and never empties the queue: after one PING, each of two steps sends the Pong.
\<close>

theorem pong_sent_again_by_next_step:
  "(case handle_message S_PING example_game of
      Inl e \<Rightarrow> False
    | Inr g1 \<Rightarrow>
        (case Game_step (LeadFeedbackAction Feedback_NONE) [WS_TEXT S_STATE_MACHINE_TICK] g1 of
           Inl e \<Rightarrow> False
         | Inr (g2, fs2) \<Rightarrow>
             (case Game_step (LeadFeedbackAction Feedback_NONE) [WS_TEXT S_STATE_MACHINE_TICK] g2 of
                Inl e \<Rightarrow> False
              | Inr (g3, fs3) \<Rightarrow>
                  ws_sent g2 = [PongMessage] \<and> ws_sent g3 = [PongMessage, PongMessage]
                  \<and> queued_messages g3 = [PongMessage])))"
  by (simp add: example_game_def Game_step_def send_message_def can_act_def TurnUpdate_def)

end
